theory Spec2Isabelle
  imports Main "HOL-Library.Sublist" "HOL-Library.AList"
begin

section \<open>Values shared by the relay pipeline\<close>

text \<open>
  The relayer of \<^verbatim>\<open>scripts/relayerV2.js\<close> is asynchronous JavaScript. Every
  \<^verbatim>\<open>await\<close> is a suspension point; the code between two suspension points runs
  without interruption on the single event-loop thread. The model follows that shape: an
  async function is cut into its uninterrupted segments, each a HOL function on an explicit
  state, and the answers of the outside world (RPC nodes, the proof API, target-chain
  transactions) are inputs of the segment that resumes after the corresponding
  \<^verbatim>\<open>await\<close>. A thrown JavaScript error is a value of type \<open>exn\<close>; a rejected promise
  is \<open>Inl\<close>.
\<close>

datatype exn = Error (message: string) | TypeError (message: string)

text \<open>The outcome that \<^verbatim>\<open>Promise.allSettled\<close> records for one promise.\<close>

datatype 'a settled = Fulfilled 'a | Rejected exn

text \<open>
  A template literal prints a number in decimal. Chain ids, log indices and HTTP status
  codes are non-negative integers far below the range where JavaScript switches to
  exponent notation.
\<close>

definition digit_char :: "nat \<Rightarrow> char" where
  "digit_char d = char_of (48 + d)"

function string_of_nat :: "nat \<Rightarrow> string" where
  "string_of_nat n =
     (if n < 10 then [digit_char n]
      else string_of_nat (n div 10) @ [digit_char (n mod 10)])"
  by pat_completeness auto
termination
  by (relation "measure id") auto

declare string_of_nat.simps [simp del]

text \<open>JavaScript truthiness of an environment variable or optional string field:
  \<^verbatim>\<open>undefined\<close> and the empty string are falsy.\<close>

definition truthy :: "string option \<Rightarrow> bool" where
  "truthy v = (case v of None \<Rightarrow> False | Some s \<Rightarrow> s \<noteq> [])"

type_synonym env = "string \<rightharpoonup> string"

text \<open>One entry of \<^verbatim>\<open>CHAINS\<close> in \<^verbatim>\<open>config/chains.js\<close>. A field the entry does not
  have is \<open>None\<close> (\<^verbatim>\<open>undefined\<close>).\<close>

record chain_config =
  name :: string
  chainId :: nat
  envPrefix :: "string option"
  invoiceBatcherAddress :: "string option"
  rpc :: "string option"
  proverAddress :: "string option"
  rpcUrl :: "string option"

section \<open>Relayer.updateChain\<close>

text \<open>
  What the target chain answers to one \<^verbatim>\<open>invoicesFromSource(proof)\<close> submission:
  sending the transaction is rejected, or the transaction (with its hash) is sent and
  waiting for it is rejected, or it is mined and \<^verbatim>\<open>tx.wait()\<close> yields the receipt.
\<close>

datatype tx_outcome =
    SendRejects exn
  | WaitRejects string exn
  | Mined string string

fun submission_error :: "tx_outcome \<Rightarrow> exn option" where
  "submission_error (SendRejects e) = Some e"
| "submission_error (WaitRejects h e) = Some e"
| "submission_error (Mined h r) = None"

text \<open>
  The error \<^verbatim>\<open>new ethers.Contract(undefined, ...)\<close> throws (ethers 6: "invalid value
  for Contract target", followed by the argument, the error code and the library version).
\<close>

definition invalid_contract_target :: exn where
  "invalid_contract_target = Error ''invalid value for Contract target''"

text \<open>
  \<^verbatim>\<open>updateChain(targetChain, proof)\<close>, from the answer of the target chain to the settled
  promise. The provider, the signer and the contract object are built before the
  \<^verbatim>\<open>try\<close>. When \<^verbatim>\<open>targetChain.invoiceBatcherAddress\<close> is \<^verbatim>\<open>undefined\<close> (an
  enabled chain whose contract address is not in the environment) the contract constructor
  throws there: the promise rejects with the library's error as it is and no transaction is
  sent. Otherwise both awaits sit in the \<^verbatim>\<open>try\<close>, whose \<^verbatim>\<open>catch\<close> wraps the error
  as \<^verbatim>\<open>Failed to update ${targetChain.name}: ${error.message}\<close>.
\<close>

definition updateChain :: "chain_config \<Rightarrow> string \<Rightarrow> tx_outcome \<Rightarrow> string settled" where
  "updateChain targetChain proof out =
     (case invoiceBatcherAddress targetChain of
        None \<Rightarrow> Rejected invalid_contract_target
      | Some contractAddress \<Rightarrow>
          (case out of
             SendRejects e \<Rightarrow>
               Rejected (Error (''Failed to update '' @ name targetChain @ '': '' @ message e))
           | WaitRejects h e \<Rightarrow>
               Rejected (Error (''Failed to update '' @ name targetChain @ '': '' @ message e))
           | Mined h receipt \<Rightarrow> Fulfilled receipt))"

section \<open>Relayer.getPolymerProof\<close>

text \<open>
  Library functions the relayer calls and whose code is not part of the repository:
  \<^verbatim>\<open>ethers.id\<close> (the hash of an event signature),
  \<^verbatim>\<open>Buffer.from(s, 'base64').toString('hex')\<close>, and the validity check that
  \<^verbatim>\<open>new ethers.Wallet(key)\<close> performs on its argument. They are parameters.
\<close>

record lib =
  ethers_id :: "string \<Rightarrow> string"
  base64_to_hex :: "string \<Rightarrow> string"
  valid_private_key :: "string option \<Rightarrow> bool"

text \<open>A transaction receipt: the transaction's index in its block and its logs, each
  with its topics.\<close>

record rlog =
  topics :: "string list"

record receipt =
  tx_index :: nat
  logs :: "rlog list"

text \<open>The answer to \<^verbatim>\<open>log_requestProof\<close> when the HTTP call resolves: the status
  code and \<^verbatim>\<open>data.result\<close>, the job id, which the relayer passes on to every poll
  without reading it.\<close>

record http_response =
  status :: nat
  response_result :: string

text \<open>
  The answer to one \<^verbatim>\<open>log_queryProof\<close>: the HTTP call rejects; or it resolves with
  no \<^verbatim>\<open>data.result\<close> (reading \<^verbatim>\<open>.proof\<close> of it throws a TypeError); or it resolves
  with a result whose \<^verbatim>\<open>proof\<close> field is absent (\<open>None\<close>) or a string.
\<close>

datatype poll_response =
    PollRejects exn
  | PollNoResult
  | PollResult "string option"

text \<open>Everything the outside world answers during one run of \<^verbatim>\<open>getPolymerProof\<close>;
  \<open>w_polls i\<close> answers the poll made when \<^verbatim>\<open>attempts\<close> is \<open>i\<close>.\<close>

record proof_world =
  w_receipt :: "exn + receipt option"
  w_request :: "exn + http_response"
  w_polls :: "nat \<Rightarrow> poll_response"

text \<open>The calls \<^verbatim>\<open>getPolymerProof\<close> makes, in order. \<open>Sleep ms\<close> is the
  \<^verbatim>\<open>setTimeout\<close> delay between two polls.\<close>

datatype api_call =
    GetTransactionReceipt "string option" string
  | RequestProof nat nat nat int
  | QueryProof string
  | Sleep nat

text \<open>\<^verbatim>\<open>Array.prototype.findIndex\<close>: the index of the first element that satisfies
  the predicate, \<open>-1\<close> when there is none.\<close>

fun findIndex :: "('a \<Rightarrow> bool) \<Rightarrow> 'a list \<Rightarrow> int" where
  "findIndex P [] = - 1"
| "findIndex P (x # xs) =
     (if P x then 0
      else (let r = findIndex P xs in if r = - 1 then - 1 else r + 1))"

text \<open>\<^verbatim>\<open>log.topics[0] === invoiceBatchTopic\<close>; \<^verbatim>\<open>topics[0]\<close> of a log without
  topics is \<^verbatim>\<open>undefined\<close>, which equals no string.\<close>

definition is_batch_log :: "lib \<Rightarrow> rlog \<Rightarrow> bool" where
  "is_batch_log L l =
     (case topics l of
        [] \<Rightarrow> False
      | t # _ \<Rightarrow> t = ethers_id L ''InvoiceBatch(address,bytes32[])'')"

text \<open>
  The poll loop (\<^verbatim>\<open>while (attempts < 120)\<close>). \<open>tr\<close> collects the calls made so far.
  A poll whose \<^verbatim>\<open>proof\<close> field is falsy (absent or empty) is followed by
  \<^verbatim>\<open>attempts++\<close> and a delay of 500 ms.
\<close>

function poll_loop ::
  "lib \<Rightarrow> (nat \<Rightarrow> poll_response) \<Rightarrow> string \<Rightarrow> nat \<Rightarrow> api_call list
     \<Rightarrow> api_call list \<times> (exn + string)" where
  "poll_loop L polls jobId attempts tr =
     (if attempts < 120 then
        (case polls attempts of
           PollRejects e \<Rightarrow> (tr @ [QueryProof jobId], Inl e)
         | PollNoResult \<Rightarrow>
             (tr @ [QueryProof jobId], Inl (TypeError ''Cannot read properties of undefined''))
         | PollResult None \<Rightarrow>
             poll_loop L polls jobId (attempts + 1) (tr @ [QueryProof jobId, Sleep 500])
         | PollResult (Some p) \<Rightarrow>
             (if p = [] then
                poll_loop L polls jobId (attempts + 1) (tr @ [QueryProof jobId, Sleep 500])
              else (tr @ [QueryProof jobId], Inr (''0x'' @ base64_to_hex L p))))
      else (tr, Inl (Error ''Timeout waiting for proof'')))"
  by pat_completeness auto
termination
  by (relation "measure (\<lambda>(L, polls, jobId, attempts, tr). 120 - attempts)") auto

declare poll_loop.simps [simp del]

text \<open>\<^verbatim>\<open>this.chains\<close>: \<^verbatim>\<open>Object.fromEntries\<close> of the enabled chains keyed by chain
  id; a later entry with the same key replaces an earlier one.\<close>

definition chains_of :: "chain_config list \<Rightarrow> nat \<rightharpoonup> chain_config" where
  "chains_of enabled = map_of (rev (map (\<lambda>c. (chainId c, c)) enabled))"

text \<open>
  \<^verbatim>\<open>getPolymerProof(sourceChainId, blockNumber, transactionHash, logIndex)\<close>: the calls
  made and the outcome (\<open>Inr\<close> the hex proof). The \<^verbatim>\<open>catch\<close> prints the message and
  rethrows the same error. The elapsed wall-clock time returned beside the proof is only
  printed by the caller and is left out.
\<close>

definition getPolymerProof ::
  "lib \<Rightarrow> chain_config list \<Rightarrow> proof_world \<Rightarrow> nat \<Rightarrow> nat \<Rightarrow> string \<Rightarrow> nat
     \<Rightarrow> api_call list \<times> (exn + string)" where
  "getPolymerProof L enabled w sourceChainId blockNumber transactionHash logIndex =
     (case chains_of enabled sourceChainId of
        None \<Rightarrow> ([], Inl (TypeError ''Cannot read properties of undefined''))
      | Some c \<Rightarrow>
          (case w_receipt w of
             Inl e \<Rightarrow> ([GetTransactionReceipt (rpc c) transactionHash], Inl e)
           | Inr None \<Rightarrow>
               ([GetTransactionReceipt (rpc c) transactionHash],
                Inl (Error ''Transaction receipt not found''))
           | Inr (Some txReceipt) \<Rightarrow>
               (let localLogIndex = findIndex (is_batch_log L) (logs txReceipt) in
                if localLogIndex = - 1 then
                  ([GetTransactionReceipt (rpc c) transactionHash],
                   Inl (Error ''InvoiceBatch event not found in transaction logs''))
                else
                  (let called = [GetTransactionReceipt (rpc c) transactionHash,
                                 RequestProof sourceChainId blockNumber (tx_index txReceipt)
                                   localLogIndex]
                   in case w_request w of
                        Inl e \<Rightarrow> (called, Inl e)
                      | Inr proofRequest \<Rightarrow>
                          (if status proofRequest \<noteq> 200 then
                             (called,
                              Inl (Error (''Failed to get proof from Polymer API. Status code: ''
                                          @ string_of_nat (status proofRequest))))
                           else poll_loop L (w_polls w) (response_result proofRequest) 0
                                  called)))))"

text \<open>Vocabulary for the statements about the poll loop.\<close>

definition not_ready :: "poll_response \<Rightarrow> bool" where
  "not_ready r = (r = PollResult None \<or> r = PollResult (Some []))"

fun poll_raises :: "poll_response \<Rightarrow> exn option" where
  "poll_raises (PollRejects e) = Some e"
| "poll_raises PollNoResult = Some (TypeError ''Cannot read properties of undefined'')"
| "poll_raises (PollResult p) = None"

fun is_query :: "api_call \<Rightarrow> bool" where
  "is_query (QueryProof _) = True"
| "is_query _ = False"

fun is_request :: "api_call \<Rightarrow> bool" where
  "is_request (RequestProof _ _ _ _) = True"
| "is_request _ = False"

text \<open>\<open>k\<close> rounds of the loop that find the proof not ready: a query, then the delay.\<close>

definition waiting_rounds :: "string \<Rightarrow> nat \<Rightarrow> api_call list" where
  "waiting_rounds jobId k = concat (replicate k [QueryProof jobId, Sleep 500])"

section \<open>config/chains.js\<close>

text \<open>\<^verbatim>\<open>String.prototype.split\<close> with a one-character separator; the empty string
  splits into one empty piece.\<close>

fun split_on :: "char \<Rightarrow> string \<Rightarrow> string list" where
  "split_on sep [] = [[]]"
| "split_on sep (c # cs) =
     (if c = sep then [] # split_on sep cs
      else (case split_on sep cs of
              [] \<Rightarrow> [[c]]
            | w # ws \<Rightarrow> (c # w) # ws))"

text \<open>The table \<^verbatim>\<open>CHAINS\<close>, built from the environment when the module is loaded.
  Only the first three entries have \<^verbatim>\<open>envPrefix\<close>, \<^verbatim>\<open>rpc\<close> and
  \<^verbatim>\<open>proverAddress\<close>; the others carry \<^verbatim>\<open>rpcUrl\<close> instead.\<close>

definition CHAINS :: "env \<Rightarrow> (string \<times> chain_config) list" where
  "CHAINS env =
     [(''optimism-sepolia'',
       \<lparr>name = ''Optimism Sepolia'', chainId = 11155420, envPrefix = Some ''OPTIMISM_SEPOLIA'',
        invoiceBatcherAddress = env ''OPTIMISM_SEPOLIA_INVOICE_BATCHER_ADDRESS'',
        rpc = env ''OPTIMISM_SEPOLIA_RPC'',
        proverAddress = env ''POLYMER_PROVER_OPTIMISM_TESTNET_CONTRACT_ADDRESS'',
        rpcUrl = None\<rparr>),
      (''arbitrum-sepolia'',
       \<lparr>name = ''Arbitrum Sepolia'', chainId = 421614, envPrefix = Some ''ARBITRUM_SEPOLIA'',
        invoiceBatcherAddress = env ''ARBITRUM_SEPOLIA_INVOICE_BATCHER_ADDRESS'',
        rpc = env ''ARBITRUM_SEPOLIA_RPC'',
        proverAddress = env ''POLYMER_PROVER_ARBITRUM_TESTNET_CONTRACT_ADDRESS'',
        rpcUrl = None\<rparr>),
      (''base-sepolia'',
       \<lparr>name = ''Base Sepolia'', chainId = 84532, envPrefix = Some ''BASE_SEPOLIA'',
        invoiceBatcherAddress = env ''BASE_SEPOLIA_INVOICE_BATCHER_ADDRESS'',
        rpc = env ''BASE_SEPOLIA_RPC'',
        proverAddress = env ''POLYMER_PROVER_BASE_TESTNET_CONTRACT_ADDRESS'',
        rpcUrl = None\<rparr>),
      (''mode-sepolia'',
       \<lparr>name = ''Mode Sepolia'', chainId = 919, envPrefix = None,
        invoiceBatcherAddress = env ''MODE_SEPOLIA_INVOICE_BATCHER_ADDRESS'',
        rpc = None, proverAddress = None, rpcUrl = env ''MODE_SEPOLIA_RPC''\<rparr>),
      (''bob-sepolia'',
       \<lparr>name = ''Bob Sepolia'', chainId = 808813, envPrefix = None,
        invoiceBatcherAddress = env ''BOB_SEPOLIA_INVOICE_BATCHER_ADDRESS'',
        rpc = None, proverAddress = None, rpcUrl = env ''BOB_SEPOLIA_RPC''\<rparr>),
      (''ink-sepolia'',
       \<lparr>name = ''Ink Sepolia'', chainId = 763373, envPrefix = None,
        invoiceBatcherAddress = env ''INK_SEPOLIA_INVOICE_BATCHER_ADDRESS'',
        rpc = None, proverAddress = None, rpcUrl = env ''INK_SEPOLIA_RPC''\<rparr>),
      (''unichain-sepolia'',
       \<lparr>name = ''UniChain Sepolia'', chainId = 1301, envPrefix = None,
        invoiceBatcherAddress = env ''UNICHAIN_SEPOLIA_INVOICE_BATCHER_ADDRESS'',
        rpc = None, proverAddress = None, rpcUrl = env ''UNICHAIN_SEPOLIA_RPC''\<rparr>),
      (''mantle-sepolia'',
       \<lparr>name = ''Mantle Sepolia'', chainId = 5003, envPrefix = None,
        invoiceBatcherAddress = env ''MANTLE_SEPOLIA_INVOICE_BATCHER_ADDRESS'',
        rpc = None, proverAddress = None, rpcUrl = env ''MANTLE_SEPOLIA_RPC''\<rparr>)]"

text \<open>The module-level \<^verbatim>\<open>activatedChains\<close>: the process exits with status 1 at load
  time when it is empty.\<close>

definition activatedChains :: "env \<Rightarrow> string list" where
  "activatedChains env =
     (if truthy (env ''ACTIVATED_CHAINS'')
      then (case env ''ACTIVATED_CHAINS'' of None \<Rightarrow> [] | Some s \<Rightarrow> split_on CHR '','' s)
      else [])"

text \<open>\<^verbatim>\<open>getEnabledChains()\<close>: the activated keys are looked up in \<^verbatim>\<open>CHAINS\<close>;
  unknown keys and chains without \<^verbatim>\<open>rpc\<close> or \<^verbatim>\<open>proverAddress\<close> are dropped.\<close>

definition getEnabledChains :: "env \<Rightarrow> chain_config list" where
  "getEnabledChains env =
     (let activated = (case env ''ACTIVATED_CHAINS'' of None \<Rightarrow> [] | Some s \<Rightarrow> split_on CHR '','' s)
      in [chain. Some chain \<leftarrow> map (map_of (CHAINS env)) activated,
                 truthy (rpc chain) \<and> truthy (proverAddress chain)])"

section \<open>ChainListener\<close>

text \<open>The record a listener hands to its callback. \<open>ev_chain\<close> is the field
  \<^verbatim>\<open>chain\<close>; \<open>ev_positionInBlock\<close> is filled in from the receipt.\<close>

record eventData =
  ev_chain :: chain_config
  ev_sender :: string
  ev_invoices :: "string list"
  ev_blockNumber :: nat
  ev_transactionHash :: string
  ev_logIndex :: nat
  ev_positionInBlock :: "nat option"

text \<open>The fields of \<^verbatim>\<open>event.log\<close> that the handler reads.\<close>

record event_log =
  log_blockHash :: string
  log_transactionHash :: string
  log_index :: nat
  log_blockNumber :: nat

text \<open>An invocation of the log handler that is suspended at one of its two awaits.\<close>

datatype handler_phase = AwaitReceipt | AwaitCallback

record handler =
  h_eventId :: string
  h_eventData :: eventData
  h_phase :: handler_phase

text \<open>
  A \<^verbatim>\<open>ChainListener\<close>. \<open>subscriptions\<close> counts the handlers registered on the contract
  for \<^verbatim>\<open>InvoiceBatch\<close>; \<open>handlers\<close> are the suspended handler invocations;
  \<open>callbackCalls\<close> and \<open>errorsLogged\<close> record, in order, each invocation of the
  callback (the identifier of the handler invocation that made it and the record handed
  over) and each error printed by the handler's \<^verbatim>\<open>catch\<close>.
\<close>

record listener =
  l_chain :: chain_config
  l_rpc :: string
  l_contractAddress :: string
  isListening :: bool
  processedEvents :: "string set"
  subscriptions :: nat
  handlers :: "handler list"
  callbackCalls :: "(string \<times> eventData) list"
  errorsLogged :: "exn list"

text \<open>A template literal prints \<^verbatim>\<open>undefined\<close> for a missing field.\<close>

definition template :: "string option \<Rightarrow> string" where
  "template v = (case v of None \<Rightarrow> ''undefined'' | Some s \<Rightarrow> s)"

text \<open>The constructor: it throws when the RPC or the contract address is missing from
  the environment.\<close>

definition ChainListener_new :: "env \<Rightarrow> chain_config \<Rightarrow> exn + listener" where
  "ChainListener_new env chain =
     (let rpcEnvKey = template (envPrefix chain) @ ''_RPC'';
          contractEnvKey = template (envPrefix chain) @ ''_INVOICEBATCHER_ADDRESS''
      in case env rpcEnvKey of
           None \<Rightarrow> Inl (Error (''No RPC found in environment for chain '' @ name chain
                               @ '' ('' @ rpcEnvKey @ '')''))
         | Some rpc_url \<Rightarrow>
             if rpc_url = [] then
               Inl (Error (''No RPC found in environment for chain '' @ name chain
                           @ '' ('' @ rpcEnvKey @ '')''))
             else
               (case env contractEnvKey of
                  None \<Rightarrow> Inl (Error (''No invoice batcher address found in environment for chain ''
                                      @ name chain @ '' ('' @ contractEnvKey @ '')''))
                | Some contractAddress \<Rightarrow>
                    if contractAddress = [] then
                      Inl (Error (''No invoice batcher address found in environment for chain ''
                                  @ name chain @ '' ('' @ contractEnvKey @ '')''))
                    else
                      Inr \<lparr>l_chain = chain, l_rpc = rpc_url, l_contractAddress = contractAddress,
                           isListening = False, processedEvents = {}, subscriptions = 0,
                           handlers = [], callbackCalls = [], errorsLogged = []\<rparr>))"

text \<open>
  \<^verbatim>\<open>start()\<close>, given the outcome of \<^verbatim>\<open>provider.getBlockNumber()\<close>. When that call
  rejects, the error propagates and nothing has changed.
\<close>

definition start :: "exn + nat \<Rightarrow> listener \<Rightarrow> exn + listener" where
  "start latestBlock l =
     (if isListening l then Inr l
      else (case latestBlock of
              Inl e \<Rightarrow> Inl e
            | Inr n \<Rightarrow> Inr (l\<lparr>subscriptions := Suc (subscriptions l), isListening := True\<rparr>)))"

text \<open>\<^verbatim>\<open>stop()\<close>; \<^verbatim>\<open>removeAllListeners()\<close> drops every registered handler.\<close>

definition stop :: "listener \<Rightarrow> listener" where
  "stop l =
     (if \<not> isListening l then l
      else l\<lparr>subscriptions := 0, isListening := False\<rparr>)"

text \<open>Removing the suspended invocation at position \<open>i\<close> once it has finished.\<close>

definition remove_nth :: "nat \<Rightarrow> 'a list \<Rightarrow> 'a list" where
  "remove_nth i xs = take i xs @ drop (Suc i) xs"

text \<open>The identifier the handler computes:
  \<^verbatim>\<open>${event.log.blockHash}-${event.log.transactionHash}-${event.log.index}\<close>.\<close>

definition log_eventId :: "event_log \<Rightarrow> string" where
  "log_eventId lg =
     log_blockHash lg @ ''-'' @ log_transactionHash lg @ ''-'' @ string_of_nat (log_index lg)"

text \<open>
  The log handler, first segment: from the delivery of a log up to the await of
  \<^verbatim>\<open>getTransactionReceipt()\<close>. A delivery whose identifier is in
  \<^verbatim>\<open>processedEvents\<close> returns at once.
\<close>

definition onInvoiceBatch :: "string \<Rightarrow> string list \<Rightarrow> event_log \<Rightarrow> listener \<Rightarrow> listener" where
  "onInvoiceBatch sender invoices lg l =
     (let eventId = log_eventId lg in
      if eventId \<in> processedEvents l then l
      else
        l\<lparr>handlers := handlers l @
             [\<lparr>h_eventId = eventId,
               h_eventData = \<lparr>ev_chain = l_chain l, ev_sender = sender, ev_invoices = invoices,
                              ev_blockNumber = log_blockNumber lg,
                              ev_transactionHash = log_transactionHash lg,
                              ev_logIndex = log_index lg, ev_positionInBlock = None\<rparr>,
               h_phase = AwaitReceipt\<rparr>]\<rparr>)"

text \<open>
  Second segment: the receipt lookup of invocation \<open>i\<close> has settled. A rejection, or a
  \<^verbatim>\<open>null\<close> receipt (reading \<^verbatim>\<open>receipt.index\<close> throws), goes to the
  \<^verbatim>\<open>catch\<close>; otherwise the position is stored and the callback is invoked.
\<close>

definition onInvoiceBatch_receipt :: "nat \<Rightarrow> exn + receipt option \<Rightarrow> listener \<Rightarrow> listener" where
  "onInvoiceBatch_receipt i rc l =
     (if i < length (handlers l) \<and> h_phase (handlers l ! i) = AwaitReceipt then
        (case rc of
           Inl e \<Rightarrow>
             l\<lparr>handlers := remove_nth i (handlers l), errorsLogged := errorsLogged l @ [e]\<rparr>
         | Inr None \<Rightarrow>
             l\<lparr>handlers := remove_nth i (handlers l),
               errorsLogged := errorsLogged l @ [TypeError ''Cannot read properties of null'']\<rparr>
         | Inr (Some r) \<Rightarrow>
             (let h = handlers l ! i;
                  eventData = (h_eventData h)\<lparr>ev_positionInBlock := Some (tx_index r)\<rparr>
              in l\<lparr>handlers := (handlers l)[i := h\<lparr>h_eventData := eventData,
                                                     h_phase := AwaitCallback\<rparr>],
                    callbackCalls := callbackCalls l @ [(h_eventId h, eventData)]\<rparr>))
      else l)"

text \<open>
  Third segment: the callback of invocation \<open>i\<close> has settled. Only when it returned is
  the identifier added to \<^verbatim>\<open>processedEvents\<close>; a rejection goes to the \<^verbatim>\<open>catch\<close>.
\<close>

definition onInvoiceBatch_callback :: "nat \<Rightarrow> exn + unit \<Rightarrow> listener \<Rightarrow> listener" where
  "onInvoiceBatch_callback i cb l =
     (if i < length (handlers l) \<and> h_phase (handlers l ! i) = AwaitCallback then
        (case cb of
           Inl e \<Rightarrow>
             l\<lparr>handlers := remove_nth i (handlers l), errorsLogged := errorsLogged l @ [e]\<rparr>
         | Inr u \<Rightarrow>
             l\<lparr>handlers := remove_nth i (handlers l),
               processedEvents := insert (h_eventId (handlers l ! i)) (processedEvents l)\<rparr>)
      else l)"

text \<open>
  What can happen to a listener, one uninterrupted segment at a time: a log is delivered
  to the handler, or a pending receipt lookup or callback settles. A list of such events
  is one interleaving of the handler invocations.
\<close>

datatype listener_event =
    LogDelivered string "string list" event_log
  | ReceiptSettles nat "exn + receipt option"
  | CallbackSettles nat "exn + unit"

fun listener_step :: "listener \<Rightarrow> listener_event \<Rightarrow> listener" where
  "listener_step l (LogDelivered sender invoices lg) = onInvoiceBatch sender invoices lg l"
| "listener_step l (ReceiptSettles i rc) = onInvoiceBatch_receipt i rc l"
| "listener_step l (CallbackSettles i cb) = onInvoiceBatch_callback i cb l"

definition listener_run :: "listener \<Rightarrow> listener_event list \<Rightarrow> listener" where
  "listener_run l evs = foldl listener_step l evs"

text \<open>One delivery handled from start to end with nothing interleaved: the invocation
  it creates is the last of the suspended ones.\<close>

definition deliver_alone ::
  "string \<Rightarrow> string list \<Rightarrow> event_log \<Rightarrow> exn + receipt option \<Rightarrow> exn + unit \<Rightarrow> listener \<Rightarrow> listener" where
  "deliver_alone sender invoices lg rc cb l =
     listener_run l
       [LogDelivered sender invoices lg,
        ReceiptSettles (length (handlers l)) rc,
        CallbackSettles (length (handlers l)) cb]"

section \<open>Relayer\<close>

text \<open>Lines the relayer prints that the statements below refer to: the warning of
  \<^verbatim>\<open>init()\<close> for a skipped chain, the two kinds of line of the update report, and
  the error printed by the \<^verbatim>\<open>catch\<close> of \<^verbatim>\<open>handleEvent\<close>.\<close>

datatype log_line =
    SkippingChain string string
  | UpdatedSuccessfully string
  | UpdateFailed string exn
  | ErrorProcessingEvent exn

text \<open>Calls the relayer makes: \<^verbatim>\<open>getPolymerProof\<close> with its four arguments, the
  calls made inside it, \<^verbatim>\<open>updateChain\<close> with the target chain and the proof, and the
  submission \<^verbatim>\<open>contract.invoicesFromSource(proof)\<close> to the contract of a target
  chain.\<close>

datatype relayer_call =
    GetPolymerProof nat nat string nat
  | Api api_call
  | UpdateChain chain_config string
  | InvoicesFromSource chain_config string

text \<open>An invocation of \<^verbatim>\<open>handleEvent\<close> suspended at one of its two awaits: the
  proof, or \<^verbatim>\<open>Promise.allSettled\<close> over the updates of the target chains.\<close>

datatype phase = AwaitProof | AwaitFanout "chain_config list" string

record task =
  t_event :: eventData
  t_phase :: phase

text \<open>
  The \<^verbatim>\<open>Relayer\<close> object (\<open>enabledChains\<close>, \<open>listeners\<close>, \<open>processingEvents\<close>)
  together with the suspended invocations of \<^verbatim>\<open>handleEvent\<close> (\<open>running\<close>), the calls
  made so far and the lines printed so far. \<^verbatim>\<open>this.listeners\<close> is a
  \<^verbatim>\<open>Map\<close> in insertion order.
\<close>

record relayer =
  enabledChains :: "chain_config list"
  listeners :: "(nat \<times> listener) list"
  processingEvents :: "string \<rightharpoonup> bool"
  running :: "task list"
  calls :: "relayer_call list"
  console :: "log_line list"

text \<open>The constructor: the enabled chains get their contract address and RPC from the
  environment through \<^verbatim>\<open>envPrefix\<close>; \<^verbatim>\<open>new ethers.Wallet\<close> throws on an invalid
  key.\<close>

definition Relayer_new :: "lib \<Rightarrow> env \<Rightarrow> exn + relayer" where
  "Relayer_new L env =
     (let enabled =
            map (\<lambda>chain. chain\<lparr>invoiceBatcherAddress :=
                                  env (template (envPrefix chain) @ ''_INVOICEBATCHER_ADDRESS''),
                                rpc := env (template (envPrefix chain) @ ''_RPC'')\<rparr>)
                (getEnabledChains env)
      in if \<not> valid_private_key L (env ''PRIVATE_KEY'') then Inl (Error ''invalid private key'')
         else Inr \<lparr>enabledChains = enabled, listeners = [], processingEvents = Map.empty,
                   running = [], calls = [], console = []\<rparr>)"

text \<open>The loop of \<^verbatim>\<open>init()\<close> over the enabled chains.\<close>

fun init_loop :: "env \<Rightarrow> chain_config list \<Rightarrow> relayer \<Rightarrow> exn + relayer" where
  "init_loop env [] r = Inr r"
| "init_loop env (chain # rest) r =
     (let contractEnvKey = template (envPrefix chain) @ ''_INVOICEBATCHER_ADDRESS'' in
      if \<not> truthy (env contractEnvKey) then
        init_loop env rest (r\<lparr>console := console r @ [SkippingChain (name chain) contractEnvKey]\<rparr>)
      else
        (case ChainListener_new env chain of
           Inl e \<Rightarrow> Inl e
         | Inr listener \<Rightarrow>
             init_loop env rest
               (r\<lparr>listeners := AList.update (chainId chain) listener (listeners r)\<rparr>)))"

definition init :: "env \<Rightarrow> relayer \<Rightarrow> exn + relayer" where
  "init env r =
     (case init_loop env (enabledChains r) r of
        Inl e \<Rightarrow> Inl e
      | Inr r' \<Rightarrow>
          if length (listeners r') = 0 then
            Inl (Error ''No chains configured with valid invoice batcher addresses'')
          else Inr r')"

text \<open>\<^verbatim>\<open>Relayer.start()\<close>: the listeners are started one after the other;
  \<open>getBlockNumber url\<close> is what the node at \<open>url\<close> answers.\<close>

fun start_all ::
  "(string \<Rightarrow> exn + nat) \<Rightarrow> (nat \<times> listener) list \<Rightarrow> exn + (nat \<times> listener) list" where
  "start_all getBlockNumber [] = Inr []"
| "start_all getBlockNumber ((k, l) # ls) =
     (case start (getBlockNumber (l_rpc l)) l of
        Inl e \<Rightarrow> Inl e
      | Inr l' \<Rightarrow>
          (case start_all getBlockNumber ls of
             Inl e \<Rightarrow> Inl e
           | Inr ls' \<Rightarrow> Inr ((k, l') # ls')))"

definition Relayer_start :: "(string \<Rightarrow> exn + nat) \<Rightarrow> relayer \<Rightarrow> exn + relayer" where
  "Relayer_start getBlockNumber r =
     (case start_all getBlockNumber (listeners r) of
        Inl e \<Rightarrow> Inl e
      | Inr ls \<Rightarrow> Inr (r\<lparr>listeners := ls\<rparr>))"

text \<open>
  \<^verbatim>\<open>main()\<close> up to the point where the relayer is watching: the exit status when the
  process exits (\<^verbatim>\<open>process.exit(1)\<close> at module load for an empty activation list, in
  the \<^verbatim>\<open>catch\<close> of \<^verbatim>\<open>main\<close> and in the \<^verbatim>\<open>catch\<close> on \<^verbatim>\<open>main()\<close>), \<open>None\<close>
  when it keeps running.
\<close>

definition main :: "lib \<Rightarrow> env \<Rightarrow> (string \<Rightarrow> exn + nat) \<Rightarrow> nat option" where
  "main L env getBlockNumber =
     (if length (activatedChains env) = 0 then Some 1
      else (case Relayer_new L env of
              Inl e \<Rightarrow> Some 1
            | Inr relayer \<Rightarrow>
                (case init env relayer of
                   Inl e \<Rightarrow> Some 1
                 | Inr relayer' \<Rightarrow>
                     (case Relayer_start getBlockNumber relayer' of
                        Inl e \<Rightarrow> Some 1
                      | Inr relayer'' \<Rightarrow> None))))"

subsection \<open>handleEvent\<close>

text \<open>The identifier of the in-flight map:
  \<^verbatim>\<open>${sourceChain.chainId}-${transactionHash}\<close>.\<close>

definition handleEvent_eventId :: "eventData \<Rightarrow> string" where
  "handleEvent_eventId eventData =
     string_of_nat (chainId (ev_chain eventData)) @ ''-'' @ ev_transactionHash eventData"

text \<open>
  First segment of \<^verbatim>\<open>handleEvent\<close>: the check of \<^verbatim>\<open>processingEvents\<close>, the
  insertion, and the call of \<^verbatim>\<open>getPolymerProof\<close>, up to the first await. There is no
  await between the check and the insertion.
\<close>

definition handleEvent :: "eventData \<Rightarrow> relayer \<Rightarrow> relayer" where
  "handleEvent eventData r =
     (let eventId = handleEvent_eventId eventData in
      if processingEvents r eventId \<noteq> None then r
      else
        r\<lparr>processingEvents := (processingEvents r)(eventId \<mapsto> True),
          running := running r @ [\<lparr>t_event = eventData, t_phase = AwaitProof\<rparr>],
          calls := calls r @
            [GetPolymerProof (chainId (ev_chain eventData)) (ev_blockNumber eventData)
               (ev_transactionHash eventData) (ev_logIndex eventData)]\<rparr>)"

text \<open>
  \<^verbatim>\<open>updateChain\<close> up to its first await: the submission is made unless the contract
  constructor has thrown.
\<close>

definition updateChain_begin :: "chain_config \<Rightarrow> string \<Rightarrow> relayer_call list" where
  "updateChain_begin targetChain proof =
     UpdateChain targetChain proof #
       (case invoiceBatcherAddress targetChain of
          None \<Rightarrow> []
        | Some contractAddress \<Rightarrow> [InvoicesFromSource targetChain proof])"

text \<open>
  Second segment: \<^verbatim>\<open>getPolymerProof\<close> of invocation \<open>i\<close> has settled, the outside
  world having answered \<open>w\<close>. On an error the \<^verbatim>\<open>catch\<close> prints it and the
  \<^verbatim>\<open>finally\<close> deletes the identifier. On a proof every enabled chain with another
  chain id becomes a target, \<^verbatim>\<open>updateChain\<close> is called for each target in order, and
  the invocation awaits \<^verbatim>\<open>Promise.allSettled\<close>. \<^verbatim>\<open>getPolymerProof\<close> reads only
  \<^verbatim>\<open>this.chains\<close>, which nothing changes, so its calls are recorded at once here.
\<close>

definition handleEvent_proof :: "lib \<Rightarrow> nat \<Rightarrow> proof_world \<Rightarrow> relayer \<Rightarrow> relayer" where
  "handleEvent_proof L i w r =
     (if i < length (running r) \<and> t_phase (running r ! i) = AwaitProof then
        (let eventData = t_event (running r ! i);
             sourceChain = ev_chain eventData;
             eventId = handleEvent_eventId eventData;
             (made, outcome) = getPolymerProof L (enabledChains r) w (chainId sourceChain)
                                 (ev_blockNumber eventData) (ev_transactionHash eventData)
                                 (ev_logIndex eventData)
         in case outcome of
              Inl error \<Rightarrow>
                r\<lparr>processingEvents := (processingEvents r)(eventId := None),
                  running := remove_nth i (running r),
                  calls := calls r @ map Api made,
                  console := console r @ [ErrorProcessingEvent error]\<rparr>
            | Inr proof \<Rightarrow>
                (let targetChains =
                       filter (\<lambda>chain. chainId chain \<noteq> chainId sourceChain) (enabledChains r)
                 in r\<lparr>running := (running r)[i := \<lparr>t_event = eventData,
                                                     t_phase = AwaitFanout targetChains proof\<rparr>],
                       calls := calls r @ map Api made
                                  @ concat (map (\<lambda>targetChain. updateChain_begin targetChain proof)
                                              targetChains)\<rparr>))
      else r)"

text \<open>One line of the update report, for a target chain and its settled update.\<close>

fun report_line :: "chain_config \<times> string settled \<Rightarrow> log_line" where
  "report_line (targetChain, Fulfilled receipt) = UpdatedSuccessfully (name targetChain)"
| "report_line (targetChain, Rejected reason) = UpdateFailed (name targetChain) reason"

text \<open>
  Third segment: every update of invocation \<open>i\<close> has settled, target \<open>k\<close> having
  answered \<open>outs ! k\<close> (an answer that is not looked at when no transaction was sent). \<^verbatim>\<open>Promise.allSettled\<close> never rejects; the results are printed
  in the order of the targets and the \<^verbatim>\<open>finally\<close> deletes the identifier.
\<close>

definition handleEvent_fanout :: "nat \<Rightarrow> tx_outcome list \<Rightarrow> relayer \<Rightarrow> relayer" where
  "handleEvent_fanout i outs r =
     (if i < length (running r) then
        (case t_phase (running r ! i) of
           AwaitProof \<Rightarrow> r
         | AwaitFanout targetChains proof \<Rightarrow>
             if length outs = length targetChains then
               (let eventId = handleEvent_eventId (t_event (running r ! i));
                    results = map (\<lambda>(targetChain, out). updateChain targetChain proof out)
                                (zip targetChains outs)
                in r\<lparr>processingEvents := (processingEvents r)(eventId := None),
                      running := remove_nth i (running r),
                      console := console r @ map report_line (zip targetChains results)\<rparr>)
             else r)
      else r)"

text \<open>
  What can happen to the relayer, one uninterrupted segment at a time: a listener invokes
  \<^verbatim>\<open>handleEvent\<close>, or the await of a suspended invocation settles. A list of such events
  is one interleaving of the invocations on the event loop.
\<close>

datatype relayer_event =
    EventDelivered eventData
  | ProofSettles nat proof_world
  | FanoutSettles nat "tx_outcome list"

fun relayer_step :: "lib \<Rightarrow> relayer \<Rightarrow> relayer_event \<Rightarrow> relayer" where
  "relayer_step L r (EventDelivered eventData) = handleEvent eventData r"
| "relayer_step L r (ProofSettles i w) = handleEvent_proof L i w r"
| "relayer_step L r (FanoutSettles i outs) = handleEvent_fanout i outs r"

definition relayer_run :: "lib \<Rightarrow> relayer \<Rightarrow> relayer_event list \<Rightarrow> relayer" where
  "relayer_run L r evs = foldl (relayer_step L) r evs"

text \<open>Vocabulary for the statements about the relayer.\<close>

definition task_eventId :: "task \<Rightarrow> string" where
  "task_eventId t = handleEvent_eventId (t_event t)"

text \<open>The suspended invocations that handle an event of chain \<open>c\<close> and transaction
  \<open>h\<close>.\<close>

definition in_flight :: "relayer \<Rightarrow> nat \<Rightarrow> string \<Rightarrow> task list" where
  "in_flight r c h =
     filter (\<lambda>t. chainId (ev_chain (t_event t)) = c \<and> ev_transactionHash (t_event t) = h)
       (running r)"







text \<open>Every identifier in the in-flight map belongs to exactly one suspended invocation,
  and the other way round.\<close>

definition tickets_match :: "relayer \<Rightarrow> bool" where
  "tickets_match r =
     (distinct (map task_eventId (running r))
      \<and> dom (processingEvents r) = set (map task_eventId (running r)))"


text \<open>The invocations of the callback made so far for the identifier \<open>k\<close>, and the
  suspended handler invocations for \<open>k\<close> that still await their receipt.\<close>

definition callbacks_for :: "string \<Rightarrow> listener \<Rightarrow> nat" where
  "callbacks_for k l = length (filter (\<lambda>c. fst c = k) (callbackCalls l))"

definition awaiting_receipt_for :: "string \<Rightarrow> listener \<Rightarrow> nat" where
  "awaiting_receipt_for k l =
     length (filter (\<lambda>h. h_eventId h = k \<and> h_phase h = AwaitReceipt) (handlers l))"

fun is_delivery_of :: "string \<Rightarrow> listener_event \<Rightarrow> bool" where
  "is_delivery_of k (LogDelivered sender invoices lg) = (log_eventId lg = k)"
| "is_delivery_of k (ReceiptSettles i rc) = False"
| "is_delivery_of k (CallbackSettles i cb) = False"

text \<open>The record handed to the callback for a log whose receipt is \<open>r\<close>.\<close>

definition eventData_of :: "listener \<Rightarrow> string \<Rightarrow> string list \<Rightarrow> event_log \<Rightarrow> receipt \<Rightarrow> eventData" where
  "eventData_of l sender invoices lg r =
     \<lparr>ev_chain = l_chain l, ev_sender = sender, ev_invoices = invoices,
      ev_blockNumber = log_blockNumber lg, ev_transactionHash = log_transactionHash lg,
      ev_logIndex = log_index lg, ev_positionInBlock = Some (tx_index r)\<rparr>"

text \<open>Whether the environment has the contract address, and the RPC, that the relayer
  looks up for a chain through its \<^verbatim>\<open>envPrefix\<close>.\<close>

definition contractEnvKey :: "chain_config \<Rightarrow> string" where
  "contractEnvKey chain = template (envPrefix chain) @ ''_INVOICEBATCHER_ADDRESS''"

definition has_contract :: "env \<Rightarrow> chain_config \<Rightarrow> bool" where
  "has_contract env chain = truthy (env (contractEnvKey chain))"

definition has_rpc :: "env \<Rightarrow> chain_config \<Rightarrow> bool" where
  "has_rpc env chain = truthy (env (template (envPrefix chain) @ ''_RPC''))"

text \<open>The warnings \<^verbatim>\<open>init()\<close> prints for the chains it skips, in order.\<close>

definition skip_warnings :: "env \<Rightarrow> chain_config list \<Rightarrow> log_line list" where
  "skip_warnings env cs =
     map (\<lambda>chain. SkippingChain (name chain) (contractEnvKey chain))
       (filter (\<lambda>chain. \<not> has_contract env chain) cs)"

text \<open>Every listener is stored under the chain id of its own chain and has not been
  started.\<close>

definition keyed_by_chain :: "(nat \<times> listener) list \<Rightarrow> bool" where
  "keyed_by_chain ls = (\<forall>(k, l) \<in> set ls. chainId (l_chain l) = k \<and> \<not> isListening l)"

section \<open>Example values\<close>

text \<open>Concrete inputs at which the theorems below are instantiated.\<close>

definition ex_lib :: lib where
  "ex_lib = \<lparr>ethers_id = (\<lambda>s. s), base64_to_hex = (\<lambda>s. s), valid_private_key = (\<lambda>k. truthy k)\<rparr>"

definition ex_base :: chain_config where
  "ex_base = \<lparr>name = ''Base Sepolia'', chainId = 84532, envPrefix = Some ''BASE_SEPOLIA'',
               invoiceBatcherAddress = Some ''0xb1'', rpc = Some ''http://base'',
               proverAddress = Some ''0xb2'', rpcUrl = None\<rparr>"

definition ex_receipt :: receipt where
  "ex_receipt = \<lparr>tx_index = 7,
     logs = [\<lparr>topics = [''NewInvoice(address,bytes32)'']\<rparr>,
             \<lparr>topics = [''InvoiceBatch(address,bytes32[])'', ''0xaa'']\<rparr>,
             \<lparr>topics = [''InvoiceBatch(address,bytes32[])'', ''0xbb'']\<rparr>]\<rparr>"

definition ex_receipt_no_batch :: receipt where
  "ex_receipt_no_batch = \<lparr>tx_index = 7,
     logs = [\<lparr>topics = [''NewInvoice(address,bytes32)'']\<rparr>, \<lparr>topics = []\<rparr>]\<rparr>"

definition ex_world :: "exn + receipt option \<Rightarrow> proof_world" where
  "ex_world rc = \<lparr>w_receipt = rc, w_request = Inr \<lparr>status = 200, response_result = ''job-1''\<rparr>,
     w_polls = (\<lambda>i. if i < 2 then PollResult None else PollResult (Some ''QUJD''))\<rparr>"

definition ex_optimism :: chain_config where
  "ex_optimism = \<lparr>name = ''Optimism Sepolia'', chainId = 11155420,
                   envPrefix = Some ''OPTIMISM_SEPOLIA'', invoiceBatcherAddress = Some ''0xa1'',
                   rpc = Some ''http://optimism'', proverAddress = Some ''0xa2'', rpcUrl = None\<rparr>"

definition ex_arbitrum :: chain_config where
  "ex_arbitrum = \<lparr>name = ''Arbitrum Sepolia'', chainId = 421614,
                   envPrefix = Some ''ARBITRUM_SEPOLIA'', invoiceBatcherAddress = Some ''0xc1'',
                   rpc = Some ''http://arbitrum'', proverAddress = Some ''0xc2'', rpcUrl = None\<rparr>"

text \<open>Optimism Sepolia enabled without a contract address in the environment.\<close>

definition ex_optimism_no_contract :: chain_config where
  "ex_optimism_no_contract = ex_optimism\<lparr>invoiceBatcherAddress := None\<rparr>"



definition ex_relayer :: relayer where
  "ex_relayer = \<lparr>enabledChains = [ex_base, ex_optimism, ex_arbitrum], listeners = [],
                  processingEvents = Map.empty, running = [], calls = [], console = []\<rparr>"

definition ex_event :: eventData where
  "ex_event = \<lparr>ev_chain = ex_base, ev_sender = ''0xAA'', ev_invoices = [''h1'', ''h2''],
                ev_blockNumber = 100, ev_transactionHash = ''0xt1'', ev_logIndex = 5,
                ev_positionInBlock = Some 7\<rparr>"

definition ex_outs :: "tx_outcome list" where
  "ex_outs = [Mined ''0xh1'' ''receipt-1'', WaitRejects ''0xh2'' (Error ''execution reverted'')]"


definition ex_listener :: listener where
  "ex_listener = \<lparr>l_chain = ex_base, l_rpc = ''http://base'', l_contractAddress = ''0xb1'',
                   isListening = True, processedEvents = {}, subscriptions = 1, handlers = [],
                   callbackCalls = [], errorsLogged = []\<rparr>"

definition ex_log :: event_log where
  "ex_log = \<lparr>log_blockHash = ''0xblockA'', log_transactionHash = ''0xt1'', log_index = 5,
              log_blockNumber = 100\<rparr>"

text \<open>The same transaction and log index, mined in another block after a reorganisation.\<close>

definition ex_log_reorg :: event_log where
  "ex_log_reorg = \<lparr>log_blockHash = ''0xblockB'', log_transactionHash = ''0xt1'', log_index = 5,
                    log_blockNumber = 100\<rparr>"

text \<open>The log of another transaction, and the listener while both logs are being handled:
  after both deliveries, and after the receipt of the first has arrived.\<close>

definition ex_log2 :: event_log where
  "ex_log2 = \<lparr>log_blockHash = ''0xblockA'', log_transactionHash = ''0xt2'', log_index = 0,
               log_blockNumber = 100\<rparr>"

definition ex_overlap :: listener where
  "ex_overlap = listener_run ex_listener
     [LogDelivered ''0xAA'' [''h1'', ''h2''] ex_log, LogDelivered ''0xBB'' [''h3''] ex_log2]"

definition ex_overlap_called :: listener where
  "ex_overlap_called = onInvoiceBatch_receipt 0 (Inr (Some ex_receipt)) ex_overlap"

definition ex_env :: env where
  "ex_env = map_of
     [(''ACTIVATED_CHAINS'', ''base-sepolia,optimism-sepolia''),
      (''PRIVATE_KEY'', ''0xkey''),
      (''BASE_SEPOLIA_RPC'', ''http://base''),
      (''POLYMER_PROVER_BASE_TESTNET_CONTRACT_ADDRESS'', ''0xb2''),
      (''BASE_SEPOLIA_INVOICEBATCHER_ADDRESS'', ''0xb1''),
      (''POLYMER_PROVER_OPTIMISM_TESTNET_CONTRACT_ADDRESS'', ''0xa2''),
      (''OPTIMISM_SEPOLIA_INVOICEBATCHER_ADDRESS'', ''0xa1'')]"

definition ex_env_no_contract :: env where
  "ex_env_no_contract = map_of
     [(''ACTIVATED_CHAINS'', ''base-sepolia,optimism-sepolia''),
      (''PRIVATE_KEY'', ''0xkey''),
      (''BASE_SEPOLIA_RPC'', ''http://base''),
      (''POLYMER_PROVER_BASE_TESTNET_CONTRACT_ADDRESS'', ''0xb2''),
      (''POLYMER_PROVER_OPTIMISM_TESTNET_CONTRACT_ADDRESS'', ''0xa2'')]"

definition ex_nodes :: "string \<Rightarrow> exn + nat" where
  "ex_nodes url = Inl (Error ''connect ECONNREFUSED'')"

definition ex_relayer_env :: relayer where
  "ex_relayer_env = \<lparr>enabledChains = [ex_base], listeners = [], processingEvents = Map.empty,
                      running = [], calls = [], console = []\<rparr>"

definition ex_base_no_contract :: chain_config where
  "ex_base_no_contract = ex_base\<lparr>invoiceBatcherAddress := None\<rparr>"

section \<open>Properties\<close>

subsection \<open>Failure reasons of a target submission\<close>

lemma sublist_mid: "sublist m (p @ m @ s)"
  unfolding sublist_def by blast

lemma sublist_last: "sublist m (p @ m)"
  using sublist_mid [of m p "[]"] by simp

lemma updateChain_wraps:
  assumes "invoiceBatcherAddress targetChain = Some a" and "submission_error out = Some e"
  shows "\<exists>m. updateChain targetChain proof out = Rejected (Error m)
           \<and> sublist (name targetChain) m \<and> sublist (message e) m"
proof -
  let ?m = "''Failed to update '' @ name targetChain @ '': '' @ message e"
  have r: "updateChain targetChain proof out = Rejected (Error ?m)"
    using assms by (cases out) (simp_all add: updateChain_def)
  have n: "sublist (name targetChain) ?m"
    by (rule sublist_mid)
  have "sublist (message e) ((''Failed to update '' @ name targetChain @ '': '') @ message e)"
    by (rule sublist_last)
  then have e: "sublist (message e) ?m"
    by simp
  from r n e show ?thesis by blast
qed

text \<open>
  Claim C8. For a target chain whose contract address is defined, whenever the submission
  fails (sending the transaction or waiting for it raises an error) \<open>updateChain\<close>
  rejects with a reason whose message contains the name of the target chain and the
  message of the underlying error. For a target chain whose contract address is undefined,
  \<open>updateChain\<close> rejects with the error of the contract constructor as it is, whatever the
  chain's name.
\<close>

theorem updateChain_failure_reason:
  "(invoiceBatcherAddress targetChain = None \<longrightarrow>
      updateChain targetChain proof out = Rejected invalid_contract_target)
   \<and> (invoiceBatcherAddress targetChain = Some a \<and> submission_error out = Some e \<longrightarrow>
        (\<exists>m. updateChain targetChain proof out = Rejected (Error m)
           \<and> sublist (name targetChain) m \<and> sublist (message e) m))"
  using updateChain_wraps [of targetChain a out e "proof"]
  by (simp add: updateChain_def)

lemma ex_raw_error_has_no_name:
  "\<not> sublist ''Optimism Sepolia'' ''invalid value for Contract target''"
  "\<not> sublist ''Failed to update'' ''invalid value for Contract target''"
  by code_simp+

theorem updateChain_failure_reason_witness:
  "invoiceBatcherAddress ex_optimism_no_contract = None
   \<and> name ex_optimism_no_contract = ''Optimism Sepolia''
   \<and> updateChain ex_optimism_no_contract ''0xQUJD'' (Mined ''0xh1'' ''receipt-1'')
       = Rejected (Error ''invalid value for Contract target'')
   \<and> \<not> sublist ''Optimism Sepolia'' ''invalid value for Contract target''
   \<and> \<not> sublist ''Failed to update'' ''invalid value for Contract target''
   \<and> invoiceBatcherAddress ex_arbitrum = Some ''0xc1''
   \<and> submission_error (WaitRejects ''0xh2'' (Error ''execution reverted''))
       = Some (Error ''execution reverted'')
   \<and> (\<exists>m. updateChain ex_arbitrum ''0xQUJD'' (WaitRejects ''0xh2'' (Error ''execution reverted''))
            = Rejected (Error m)
        \<and> sublist ''Arbitrum Sepolia'' m \<and> sublist ''execution reverted'' m)"
  using updateChain_failure_reason
      [where targetChain = ex_optimism_no_contract and out = "Mined ''0xh1'' ''receipt-1''"
         and ?proof = "''0xQUJD''"]
    updateChain_failure_reason
      [where targetChain = ex_arbitrum and out = "WaitRejects ''0xh2'' (Error ''execution reverted'')"
         and ?proof = "''0xQUJD''" and a = "''0xc1''" and e = "Error ''execution reverted''"]
    ex_raw_error_has_no_name
  by (simp add: ex_optimism_no_contract_def ex_optimism_def ex_arbitrum_def
      invalid_contract_target_def)

subsection \<open>The poll loop\<close>

lemma poll_loop_wait:
  "a + d \<le> 120 \<Longrightarrow> (\<forall>j<d. not_ready (polls (a + j))) \<Longrightarrow>
   poll_loop L polls jobId a tr = poll_loop L polls jobId (a + d) (tr @ waiting_rounds jobId d)"
proof (induction d arbitrary: a tr)
  case 0
  then show ?case by (simp add: waiting_rounds_def)
next
  case (Suc d)
  from Suc.prems have a: "a < 120" by simp
  from Suc.prems have "not_ready (polls (a + 0))" by blast
  then have nr: "not_ready (polls a)" by simp
  have step: "poll_loop L polls jobId a tr
      = poll_loop L polls jobId (a + 1) (tr @ [QueryProof jobId, Sleep 500])"
    using a nr by (subst poll_loop.simps) (auto simp: not_ready_def)
  have "\<forall>j<d. not_ready (polls ((a + 1) + j))"
  proof (intro allI impI)
    fix j assume "j < d"
    then have "Suc j < Suc d" by simp
    with Suc.prems(2) have "not_ready (polls (a + Suc j))" by blast
    then show "not_ready (polls ((a + 1) + j))" by simp
  qed
  with Suc.prems have "(a + 1) + d \<le> 120 \<and> (\<forall>j<d. not_ready (polls ((a + 1) + j)))" by simp
  then have "poll_loop L polls jobId (a + 1) (tr @ [QueryProof jobId, Sleep 500])
      = poll_loop L polls jobId ((a + 1) + d) ((tr @ [QueryProof jobId, Sleep 500]) @ waiting_rounds jobId d)"
    using Suc.IH [of "a + 1" "tr @ [QueryProof jobId, Sleep 500]"] by blast
  with step show ?case by (simp add: waiting_rounds_def)
qed

lemma poll_loop_ready:
  "k < 120 \<Longrightarrow> (\<forall>j<k. not_ready (polls j)) \<Longrightarrow> polls k = PollResult (Some p) \<Longrightarrow> p \<noteq> [] \<Longrightarrow>
   poll_loop L polls jobId 0 tr = (tr @ waiting_rounds jobId k @ [QueryProof jobId], Inr (''0x'' @ base64_to_hex L p))"
  using poll_loop_wait [of 0 k polls L jobId tr]
  by (simp add: poll_loop.simps [of L polls jobId k])

lemma poll_loop_raises:
  "k < 120 \<Longrightarrow> (\<forall>j<k. not_ready (polls j)) \<Longrightarrow> poll_raises (polls k) = Some e \<Longrightarrow>
   poll_loop L polls jobId 0 tr = (tr @ waiting_rounds jobId k @ [QueryProof jobId], Inl e)"
  using poll_loop_wait [of 0 k polls L jobId tr]
  by (cases "polls k") (auto simp add: poll_loop.simps [of L polls jobId k])

lemma poll_loop_timeout:
  "(\<forall>j<120. not_ready (polls j)) \<Longrightarrow>
   poll_loop L polls jobId 0 tr = (tr @ waiting_rounds jobId 120, Inl (Error ''Timeout waiting for proof''))"
  using poll_loop_wait [of 0 120 polls L jobId tr]
  by (simp add: poll_loop.simps [of L polls jobId 120])

lemma queries_waiting_rounds: "length (filter is_query (waiting_rounds jobId k)) = k"
  by (induction k) (simp_all add: waiting_rounds_def)

lemma settle_cases:
  "not_ready r \<or> (\<exists>e. poll_raises r = Some e) \<or> (\<exists>p. r = PollResult (Some p) \<and> p \<noteq> [])"
  by (cases r; simp add: not_ready_def; metis option.exhaust)

lemma poll_loop_queries: "length (filter is_query (fst (poll_loop L polls jobId 0 []))) \<le> 120"
proof (cases "\<forall>j<120. not_ready (polls j)")
  case True
  then show ?thesis by (simp add: poll_loop_timeout queries_waiting_rounds)
next
  case False
  then have ex: "\<exists>k. k < 120 \<and> \<not> not_ready (polls k)" by blast
  define k where "k = (LEAST k. k < 120 \<and> \<not> not_ready (polls k))"
  have k: "k < 120 \<and> \<not> not_ready (polls k)"
    unfolding k_def using ex by (rule LeastI_ex)
  have before: "\<forall>j<k. not_ready (polls j)"
  proof (intro allI impI)
    fix j assume jk: "j < k"
    show "not_ready (polls j)"
    proof (rule ccontr)
      assume "\<not> not_ready (polls j)"
      with jk k have "j < 120 \<and> \<not> not_ready (polls j)" by simp
      then have "k \<le> j" unfolding k_def by (rule Least_le)
      with jk show False by simp
    qed
  qed
  from settle_cases [of "polls k"] k
  consider e where "poll_raises (polls k) = Some e"
    | p where "polls k = PollResult (Some p)" "p \<noteq> []" by blast
  then show ?thesis
  proof cases
    case 1
    with k before poll_loop_raises [of k polls e L jobId "[]"] show ?thesis
      by (simp add: queries_waiting_rounds)
  next
    case 2
    with k before poll_loop_ready [of k polls p L jobId "[]"] show ?thesis
      by (simp add: queries_waiting_rounds)
  qed
qed

lemma poll_loop_requests:
  "filter is_request (fst (poll_loop L polls jobId a tr)) = filter is_request tr"
proof (induction L polls jobId a tr rule: poll_loop.induct)
  case (1 L polls jobId attempts tr)
  show ?case
  proof (cases "attempts < 120")
    case False
    then show ?thesis by (simp add: poll_loop.simps [of L polls jobId attempts])
  next
    case True
    show ?thesis
    proof (cases "polls attempts")
      case (PollRejects e)
      with True show ?thesis by (simp add: poll_loop.simps [of L polls jobId attempts])
    next
      case PollNoResult
      with True show ?thesis by (simp add: poll_loop.simps [of L polls jobId attempts])
    next
      case (PollResult p)
      show ?thesis
      proof (cases p)
        case None
        with True PollResult "1.IH"(1) show ?thesis
          by (simp add: poll_loop.simps [of L polls jobId attempts])
      next
        case (Some s)
        with True PollResult "1.IH"(2) show ?thesis
          by (cases "s = []") (simp_all add: poll_loop.simps [of L polls jobId attempts])
      qed
    qed
  qed
qed

text \<open>
  Claim C3. The poll loop makes at most 120 queries, each not-ready poll being followed by
  a delay of 500 ms, and it always returns: with the decoded proof when the first poll that
  is not "not ready" carries a proof, with the error of the first poll that raises (no
  further poll is made), and with the error "Timeout waiting for proof" when all 120
  polls find the proof not ready.
\<close>

theorem poll_loop_bounded_outcomes:
  "length (filter is_query (fst (poll_loop L polls jobId 0 []))) \<le> 120
   \<and> (k < 120 \<and> (\<forall>j<k. not_ready (polls j)) \<and> polls k = PollResult (Some p) \<and> p \<noteq> [] \<longrightarrow>
        poll_loop L polls jobId 0 []
          = (waiting_rounds jobId k @ [QueryProof jobId], Inr (''0x'' @ base64_to_hex L p)))
   \<and> (k < 120 \<and> (\<forall>j<k. not_ready (polls j)) \<and> poll_raises (polls k) = Some e \<longrightarrow>
        poll_loop L polls jobId 0 [] = (waiting_rounds jobId k @ [QueryProof jobId], Inl e))
   \<and> ((\<forall>j<120. not_ready (polls j)) \<longrightarrow>
        poll_loop L polls jobId 0 []
          = (waiting_rounds jobId 120, Inl (Error ''Timeout waiting for proof'')))"
  using poll_loop_queries [of L polls jobId]
    poll_loop_ready [of k polls p L jobId "[]"]
    poll_loop_raises [of k polls e L jobId "[]"]
    poll_loop_timeout [of polls L jobId "[]"]
  by simp

theorem poll_loop_bounded_outcomes_witness:
  "(2::nat) < 120
   \<and> not_ready ((\<lambda>i. if i < 2 then PollResult None else PollResult (Some ''QUJD'')) (0::nat))
   \<and> not_ready ((\<lambda>i. if i < 2 then PollResult None else PollResult (Some ''QUJD'')) (1::nat))
   \<and> poll_loop ex_lib
        (\<lambda>i. if i < 2 then PollResult None else PollResult (Some ''QUJD'')) ''job-1'' 0 []
       = ([QueryProof ''job-1'', Sleep 500, QueryProof ''job-1'', Sleep 500, QueryProof ''job-1''],
          Inr ''0xQUJD'')
   \<and> (1::nat) < 120
   \<and> not_ready ((\<lambda>i. if i < 1 then PollResult (Some []) else PollRejects (Error ''ECONNRESET'')) (0::nat))
   \<and> poll_loop ex_lib
        (\<lambda>i. if i < 1 then PollResult (Some []) else PollRejects (Error ''ECONNRESET'')) ''job-1'' 0 []
       = ([QueryProof ''job-1'', Sleep 500, QueryProof ''job-1''], Inl (Error ''ECONNRESET''))
   \<and> (\<forall>j::nat. not_ready ((\<lambda>i. PollResult None) j))
   \<and> poll_loop ex_lib
        (\<lambda>i. PollResult None) ''job-1'' 0 []
       = (waiting_rounds ''job-1'' 120, Inl (Error ''Timeout waiting for proof''))
   \<and> length (filter is_query (waiting_rounds ''job-1'' 120)) = 120"
  using poll_loop_bounded_outcomes
      [of ex_lib
          "\<lambda>i. if i < 2 then PollResult None else PollResult (Some ''QUJD'')" "''job-1''" 2 "''QUJD''"]
    poll_loop_bounded_outcomes
      [of ex_lib
          "\<lambda>i. if i < 1 then PollResult (Some []) else PollRejects (Error ''ECONNRESET'')" "''job-1''" 1 _
          "Error ''ECONNRESET''"]
    poll_loop_bounded_outcomes
      [of ex_lib
          "\<lambda>i. PollResult None" "''job-1''"]
  by (simp add: ex_lib_def not_ready_def waiting_rounds_def queries_waiting_rounds [unfolded waiting_rounds_def]
        less_Suc_eq numeral_2_eq_2)

subsection \<open>The proof request\<close>

lemma findIndex_ge: "findIndex P xs \<ge> - 1"
  by (induction xs) (auto simp: Let_def)

lemma findIndex_none: "(findIndex P xs = - 1) = (\<forall>x \<in> set xs. \<not> P x)"
proof (induction xs)
  case Nil
  show ?case by simp
next
  case (Cons x xs)
  have "findIndex P xs + 1 \<noteq> - 1"
    using findIndex_ge [of P xs] by simp
  with Cons show ?case by (simp add: Let_def)
qed

lemma findIndex_first:
  "k < length xs \<Longrightarrow> P (xs ! k) \<Longrightarrow> (\<forall>j<k. \<not> P (xs ! j)) \<Longrightarrow> findIndex P xs = int k"
proof (induction xs arbitrary: k)
  case Nil
  then show ?case by simp
next
  case (Cons x xs)
  show ?case
  proof (cases k)
    case 0
    with Cons.prems show ?thesis by simp
  next
    case (Suc m)
    with Cons.prems have nx: "\<not> P x" by auto
    from Suc Cons.prems have m: "m < length xs" "P (xs ! m)" by auto
    have "\<forall>j<m. \<not> P (xs ! j)"
    proof (intro allI impI)
      fix j assume "j < m"
      then have "Suc j < k" using Suc by simp
      with Cons.prems(3) have "\<not> P ((x # xs) ! Suc j)" by blast
      then show "\<not> P (xs ! j)" by simp
    qed
    with Cons.IH m have "findIndex P xs = int m" by blast
    with nx Suc show ?thesis by (simp add: Let_def)
  qed
qed

text \<open>
  Claim C5. \<open>getPolymerProof\<close> raises "Transaction receipt not found" when the receipt is
  missing and "InvoiceBatch event not found in transaction logs" when no log of the receipt
  has the event's signature hash as first topic, in both cases without requesting a proof;
  otherwise it makes exactly one proof request, with the source chain id, the block
  number, the receipt's transaction index and the index of the first such log (later
  matching logs are not selected).
\<close>

theorem getPolymerProof_local_log_index:
  assumes "chains_of enabled sourceChainId = Some c"
  shows "(w_receipt w = Inr None \<longrightarrow>
            getPolymerProof L enabled w sourceChainId blockNumber transactionHash logIndex
              = ([GetTransactionReceipt (rpc c) transactionHash],
                 Inl (Error ''Transaction receipt not found'')))
       \<and> (w_receipt w = Inr (Some r) \<and> (\<forall>l \<in> set (logs r). \<not> is_batch_log L l) \<longrightarrow>
            getPolymerProof L enabled w sourceChainId blockNumber transactionHash logIndex
              = ([GetTransactionReceipt (rpc c) transactionHash],
                 Inl (Error ''InvoiceBatch event not found in transaction logs'')))
       \<and> (w_receipt w = Inr (Some r) \<and> k < length (logs r) \<and> is_batch_log L (logs r ! k)
            \<and> (\<forall>j<k. \<not> is_batch_log L (logs r ! j)) \<longrightarrow>
            filter is_request
                (fst (getPolymerProof L enabled w sourceChainId blockNumber transactionHash logIndex))
              = [RequestProof sourceChainId blockNumber (tx_index r) (int k)])"
proof (intro conjI impI)
  assume "w_receipt w = Inr None"
  with assms show "getPolymerProof L enabled w sourceChainId blockNumber transactionHash logIndex
      = ([GetTransactionReceipt (rpc c) transactionHash], Inl (Error ''Transaction receipt not found''))"
    by (simp add: getPolymerProof_def)
next
  assume a: "w_receipt w = Inr (Some r) \<and> (\<forall>l \<in> set (logs r). \<not> is_batch_log L l)"
  then have "findIndex (is_batch_log L) (logs r) = - 1"
    by (simp add: findIndex_none)
  with a assms show "getPolymerProof L enabled w sourceChainId blockNumber transactionHash logIndex
      = ([GetTransactionReceipt (rpc c) transactionHash],
         Inl (Error ''InvoiceBatch event not found in transaction logs''))"
    by (simp add: getPolymerProof_def)
next
  assume a: "w_receipt w = Inr (Some r) \<and> k < length (logs r) \<and> is_batch_log L (logs r ! k)
            \<and> (\<forall>j<k. \<not> is_batch_log L (logs r ! j))"
  then have fi: "findIndex (is_batch_log L) (logs r) = int k"
    using findIndex_first [of k "logs r" "is_batch_log L"] by blast
  show "filter is_request
          (fst (getPolymerProof L enabled w sourceChainId blockNumber transactionHash logIndex))
        = [RequestProof sourceChainId blockNumber (tx_index r) (int k)]"
  proof (cases "w_request w")
    case (Inl e)
    with a fi assms show ?thesis by (simp add: getPolymerProof_def)
  next
    case (Inr resp)
    with a fi assms show ?thesis
      by (cases "status resp = 200") (simp_all add: getPolymerProof_def poll_loop_requests)
  qed
qed

theorem getPolymerProof_local_log_index_witness:
  "chains_of [ex_base] 84532 = Some ex_base
   \<and> getPolymerProof ex_lib [ex_base] (ex_world (Inr None)) 84532 100 ''0xt1'' 5
       = ([GetTransactionReceipt (Some ''http://base'') ''0xt1''],
          Inl (Error ''Transaction receipt not found''))
   \<and> \<not> is_batch_log ex_lib \<lparr>topics = [''NewInvoice(address,bytes32)'']\<rparr>
   \<and> \<not> is_batch_log ex_lib \<lparr>topics = []\<rparr>
   \<and> getPolymerProof ex_lib [ex_base] (ex_world (Inr (Some ex_receipt_no_batch))) 84532 100 ''0xt1'' 5
       = ([GetTransactionReceipt (Some ''http://base'') ''0xt1''],
          Inl (Error ''InvoiceBatch event not found in transaction logs''))
   \<and> (1::nat) < length (logs ex_receipt)
   \<and> is_batch_log ex_lib (logs ex_receipt ! 1)
   \<and> is_batch_log ex_lib (logs ex_receipt ! 2)
   \<and> \<not> is_batch_log ex_lib (logs ex_receipt ! 0)
   \<and> filter is_request
        (fst (getPolymerProof ex_lib [ex_base] (ex_world (Inr (Some ex_receipt))) 84532 100 ''0xt1'' 5))
       = [RequestProof 84532 100 7 1]"
  using getPolymerProof_local_log_index
      [where enabled = "[ex_base]" and sourceChainId = 84532 and c = ex_base and L = ex_lib
         and w = "ex_world (Inr None)" and blockNumber = 100 and transactionHash = "''0xt1''"
         and logIndex = 5]
    getPolymerProof_local_log_index
      [where enabled = "[ex_base]" and sourceChainId = 84532 and c = ex_base and L = ex_lib
         and w = "ex_world (Inr (Some ex_receipt_no_batch))" and r = ex_receipt_no_batch
         and blockNumber = 100 and transactionHash = "''0xt1''" and logIndex = 5]
    getPolymerProof_local_log_index
      [where enabled = "[ex_base]" and sourceChainId = 84532 and c = ex_base and L = ex_lib
         and w = "ex_world (Inr (Some ex_receipt))" and r = ex_receipt and k = 1
         and blockNumber = 100 and transactionHash = "''0xt1''" and logIndex = 5]
  by (simp add: chains_of_def is_batch_log_def ex_base_def ex_lib_def ex_world_def ex_receipt_def
        ex_receipt_no_batch_def)

subsection \<open>In-flight exclusivity\<close>

lemma remove_nth_map: "map f (remove_nth i xs) = remove_nth i (map f xs)"
  by (simp add: remove_nth_def take_map drop_map)

lemma distinct_remove_nth: "distinct xs \<Longrightarrow> distinct (remove_nth i xs)"
proof -
  assume d: "distinct xs"
  have "xs = take i xs @ drop i xs" by simp
  moreover have "set (drop (Suc i) xs) \<subseteq> set (drop i xs)"
    by (simp add: set_drop_subset_set_drop)
  ultimately have "set (take i xs) \<inter> set (drop (Suc i) xs) = {}"
    using d by (metis (no_types, lifting) disjoint_iff distinct_append subsetD)
  with d show ?thesis by (simp add: remove_nth_def)
qed

lemma set_remove_nth:
  "distinct xs \<Longrightarrow> i < length xs \<Longrightarrow> set (remove_nth i xs) = set xs - {xs ! i}"
proof -
  assume d: "distinct xs" and i: "i < length xs"
  from i have xs: "xs = take i xs @ xs ! i # drop (Suc i) xs"
    by (simp add: id_take_nth_drop)
  then have "distinct (take i xs @ xs ! i # drop (Suc i) xs)" using d by simp
  then have "xs ! i \<notin> set (take i xs)" "xs ! i \<notin> set (drop (Suc i) xs)" by auto
  moreover have "set xs = set (take i xs) \<union> {xs ! i} \<union> set (drop (Suc i) xs)"
    by (subst xs) auto
  ultimately show ?thesis by (auto simp: remove_nth_def)
qed

lemma tickets_match_handleEvent: "tickets_match r \<Longrightarrow> tickets_match (handleEvent eventData r)"
  by (auto simp: tickets_match_def handleEvent_def Let_def task_eventId_def)

lemma tickets_match_remove:
  assumes "tickets_match r" "i < length (running r)"
    and "processingEvents r' = (processingEvents r)(handleEvent_eventId (t_event (running r ! i)) := None)"
    and "running r' = remove_nth i (running r)"
  shows "tickets_match r'"
proof -
  let ?ks = "map task_eventId (running r)"
  from assms have d: "distinct ?ks" and m: "dom (processingEvents r) = set ?ks"
    by (simp_all add: tickets_match_def)
  from assms have i: "i < length ?ks" by simp
  have k: "?ks ! i = handleEvent_eventId (t_event (running r ! i))"
    using assms(2) by (simp add: task_eventId_def)
  have "set (remove_nth i ?ks) = set ?ks - {?ks ! i}"
    using d i by (rule set_remove_nth)
  with d m k assms(3,4) show ?thesis
    by (simp add: tickets_match_def remove_nth_map distinct_remove_nth)
qed

lemma tickets_match_handleEvent_proof:
  assumes "tickets_match r"
  shows "tickets_match (handleEvent_proof L i w r)"
proof (cases "i < length (running r) \<and> t_phase (running r ! i) = AwaitProof")
  case False
  with assms show ?thesis by (auto simp: handleEvent_proof_def)
next
  case True
  obtain made outcome where g: "getPolymerProof L (enabledChains r) w
        (chainId (ev_chain (t_event (running r ! i)))) (ev_blockNumber (t_event (running r ! i)))
        (ev_transactionHash (t_event (running r ! i))) (ev_logIndex (t_event (running r ! i)))
      = (made, outcome)" by (cases "getPolymerProof L (enabledChains r) w
        (chainId (ev_chain (t_event (running r ! i)))) (ev_blockNumber (t_event (running r ! i)))
        (ev_transactionHash (t_event (running r ! i))) (ev_logIndex (t_event (running r ! i)))") 
  show ?thesis
  proof (cases outcome)
    case (Inl e)
    with True g show ?thesis
      by (intro tickets_match_remove [OF assms, of i]) (simp_all add: handleEvent_proof_def Let_def)
  next
    case (Inr p)
    have "map task_eventId ((running r)[i := \<lparr>t_event = t_event (running r ! i), t_phase = AwaitFanout ts p\<rparr>])
        = map task_eventId (running r)" for ts
      using True by (simp add: map_update task_eventId_def list_update_same_conv)
    with Inr True g assms show ?thesis
      by (simp add: handleEvent_proof_def Let_def tickets_match_def)
  qed
qed

lemma tickets_match_handleEvent_fanout:
  assumes "tickets_match r"
  shows "tickets_match (handleEvent_fanout i outs r)"
proof (cases "i < length (running r)")
  case False
  with assms show ?thesis by (simp add: handleEvent_fanout_def)
next
  case True
  show ?thesis
  proof (cases "t_phase (running r ! i)")
    case AwaitProof
    with True assms show ?thesis by (simp add: handleEvent_fanout_def)
  next
    case (AwaitFanout ts p)
    show ?thesis
    proof (cases "length outs = length ts")
      case False
      with True AwaitFanout assms show ?thesis by (simp add: handleEvent_fanout_def)
    next
      case len: True
      with True AwaitFanout show ?thesis
        by (intro tickets_match_remove [OF assms, of i]) (simp_all add: handleEvent_fanout_def Let_def)
    qed
  qed
qed

lemma tickets_match_step: "tickets_match r \<Longrightarrow> tickets_match (relayer_step L r e)"
  by (cases e) (simp_all add: tickets_match_handleEvent tickets_match_handleEvent_proof
      tickets_match_handleEvent_fanout)

lemma tickets_match_run: "tickets_match r \<Longrightarrow> tickets_match (relayer_run L r evs)"
  unfolding relayer_run_def
  by (induction evs arbitrary: r) (simp_all add: tickets_match_step)

lemma distinct_filter_key:
  "distinct (map f xs) \<Longrightarrow> length (filter (\<lambda>x. f x = k) xs) \<le> 1"
proof (induction xs)
  case Nil
  then show ?case by simp
next
  case (Cons x xs)
  show ?case
  proof (cases "f x = k")
    case False
    with Cons show ?thesis by simp
  next
    case True
    from Cons.prems have "f x \<notin> f ` set xs" by simp
    with True have "\<forall>y \<in> set xs. f y \<noteq> k" by (metis imageI)
    then have "filter (\<lambda>x. f x = k) xs = []" by (simp add: filter_empty_conv)
    with True show ?thesis by simp
  qed
qed

lemma in_flight_by_key:
  "in_flight r c h = filter (\<lambda>t. chainId (ev_chain (t_event t)) = c \<and> ev_transactionHash (t_event t) = h)
      (filter (\<lambda>t. task_eventId t = string_of_nat c @ ''-'' @ h) (running r))"
  unfolding in_flight_def filter_filter
  by (rule filter_cong) (auto simp: task_eventId_def handleEvent_eventId_def)

lemma in_flight_le_1: "tickets_match r \<Longrightarrow> length (in_flight r c h) \<le> 1"
proof -
  assume "tickets_match r"
  then have "length (filter (\<lambda>t. task_eventId t = string_of_nat c @ ''-'' @ h) (running r)) \<le> 1"
    using distinct_filter_key [of task_eventId "running r"] by (simp add: tickets_match_def)
  moreover have "length (in_flight r c h)
      \<le> length (filter (\<lambda>t. task_eventId t = string_of_nat c @ ''-'' @ h) (running r))"
    by (subst in_flight_by_key) (rule length_filter_le)
  ultimately show ?thesis by simp
qed

text \<open>
  Claim C1. In every state the relayer reaches from an idle state, under any interleaving
  of deliveries and settlements: an invocation of \<open>handleEvent\<close> for an event whose
  identifier is in the in-flight map leaves the whole state as it is (no proof is requested,
  no update is dispatched, no invocation is suspended); the identifier is in the map
  exactly while an invocation for it is suspended; and for every source chain id and
  transaction hash at most one invocation is in flight.
\<close>

theorem handleEvent_at_most_one_in_flight:
  assumes "running r0 = []" and "processingEvents r0 = Map.empty"
  shows "(processingEvents (relayer_run L r0 evs) (handleEvent_eventId eventData) \<noteq> None \<longrightarrow>
            handleEvent eventData (relayer_run L r0 evs) = relayer_run L r0 evs)
       \<and> (processingEvents (relayer_run L r0 evs) (handleEvent_eventId eventData) \<noteq> None \<longleftrightarrow>
            (\<exists>t \<in> set (running (relayer_run L r0 evs)).
               handleEvent_eventId (t_event t) = handleEvent_eventId eventData))
       \<and> length (in_flight (relayer_run L r0 evs) c h) \<le> 1"
proof -
  from assms have "tickets_match r0" by (simp add: tickets_match_def)
  then have tm: "tickets_match (relayer_run L r0 evs)" by (rule tickets_match_run)
  have a: "processingEvents (relayer_run L r0 evs) (handleEvent_eventId eventData) \<noteq> None \<longrightarrow>
            handleEvent eventData (relayer_run L r0 evs) = relayer_run L r0 evs"
    by (simp add: handleEvent_def)
  have "(handleEvent_eventId eventData \<in> dom (processingEvents (relayer_run L r0 evs)))
      = (handleEvent_eventId eventData \<in> set (map task_eventId (running (relayer_run L r0 evs))))"
    using tm by (simp add: tickets_match_def)
  then have b: "processingEvents (relayer_run L r0 evs) (handleEvent_eventId eventData) \<noteq> None \<longleftrightarrow>
            (\<exists>t \<in> set (running (relayer_run L r0 evs)).
               handleEvent_eventId (t_event t) = handleEvent_eventId eventData)"
    by (simp add: dom_def task_eventId_def image_iff) metis
  from a b in_flight_le_1 [OF tm] show ?thesis by blast
qed

subsection \<open>Fan-out and ticket release\<close>

lemma remove_nth_last: "remove_nth (length xs) (xs @ [x]) = xs"
  by (simp add: remove_nth_def)










subsection \<open>The listener's de-duplication\<close>

lemma split_at_index:
  assumes "i < length xs"
  obtains as bs where "xs = as @ xs ! i # bs" and "length as = i"
proof
  show "xs = take i xs @ xs ! i # drop (Suc i) xs"
    using assms by (simp add: id_take_nth_drop)
  show "length (take i xs) = i" using assms by simp
qed

lemma count_remove_nth:
  assumes "i < length xs"
  shows "length (filter P (remove_nth i xs)) + (if P (xs ! i) then 1 else 0) = length (filter P xs)"
proof -
  from assms obtain as bs where xs: "xs = as @ xs ! i # bs" and l: "length as = i"
    by (rule split_at_index)
  have "remove_nth i (as @ xs ! i # bs) = as @ bs"
    using l by (simp add: remove_nth_def)
  then have "length (filter P (remove_nth i xs)) = length (filter P as) + length (filter P bs)"
    using xs by (metis filter_append length_append)
  moreover have "length (filter P xs)
      = length (filter P as) + (if P (xs ! i) then 1 else 0) + length (filter P bs)"
    by (subst xs) simp
  ultimately show ?thesis by simp
qed

lemma count_list_update:
  assumes "i < length xs"
  shows "length (filter P (xs[i := y])) + (if P (xs ! i) then 1 else 0)
           = length (filter P xs) + (if P y then 1 else 0)"
proof -
  from assms obtain as bs where xs: "xs = as @ xs ! i # bs" and l: "length as = i"
    by (rule split_at_index)
  have "(as @ xs ! i # bs)[i := y] = as @ y # bs"
    using l by (simp add: list_update_append)
  then have "xs[i := y] = as @ y # bs" using xs by metis
  then have "length (filter P (xs[i := y]))
      = length (filter P as) + (if P y then 1 else 0) + length (filter P bs)"
    by simp
  moreover have "length (filter P xs)
      = length (filter P as) + (if P (xs ! i) then 1 else 0) + length (filter P bs)"
    by (subst xs) simp
  ultimately show ?thesis by simp
qed

lemma listener_run_Cons: "listener_run l (ev # evs) = listener_run (listener_step l ev) evs"
  by (simp add: listener_run_def)

lemma listener_run_append:
  "listener_run l (evs @ evs') = listener_run (listener_run l evs) evs'"
  by (simp add: listener_run_def)

lemma onInvoiceBatch_recorded:
  "log_eventId lg \<in> processedEvents l \<Longrightarrow> onInvoiceBatch sender invoices lg l = l"
  by (simp add: onInvoiceBatch_def)

lemma onInvoiceBatch_new:
  "log_eventId lg \<notin> processedEvents l \<Longrightarrow>
   onInvoiceBatch sender invoices lg l
     = l\<lparr>handlers := handlers l @
          [\<lparr>h_eventId = log_eventId lg,
            h_eventData = (eventData_of l sender invoices lg r)\<lparr>ev_positionInBlock := None\<rparr>,
            h_phase = AwaitReceipt\<rparr>]\<rparr>"
  by (simp add: onInvoiceBatch_def eventData_of_def)

lemma receipt_after_delivery:
  assumes "log_eventId lg \<notin> processedEvents l"
  shows "onInvoiceBatch_receipt (length (handlers l)) (Inr (Some r)) (onInvoiceBatch sender invoices lg l)
     = l\<lparr>handlers := handlers l @
            [\<lparr>h_eventId = log_eventId lg, h_eventData = eventData_of l sender invoices lg r,
              h_phase = AwaitCallback\<rparr>],
          callbackCalls := callbackCalls l @ [(log_eventId lg, eventData_of l sender invoices lg r)]\<rparr>"
  by (simp add: onInvoiceBatch_new [OF assms, of sender invoices r] onInvoiceBatch_receipt_def
      Let_def eventData_of_def)

lemma deliver_alone_recorded:
  "log_eventId lg \<in> processedEvents l \<Longrightarrow> deliver_alone sender invoices lg rc cb l = l"
  by (simp add: deliver_alone_def listener_run_def onInvoiceBatch_recorded
      onInvoiceBatch_receipt_def onInvoiceBatch_callback_def)

lemma deliver_alone_returns:
  assumes "log_eventId lg \<notin> processedEvents l"
  shows "deliver_alone sender invoices lg (Inr (Some r)) (Inr u) l
     = l\<lparr>handlers := handlers l,
          callbackCalls := callbackCalls l @ [(log_eventId lg, eventData_of l sender invoices lg r)],
          processedEvents := insert (log_eventId lg) (processedEvents l)\<rparr>"
  by (simp add: deliver_alone_def listener_run_def receipt_after_delivery [OF assms]
      onInvoiceBatch_callback_def remove_nth_last)

text \<open>No step removes an identifier from \<open>processedEvents\<close>.\<close>

lemma processedEvents_step: "processedEvents l \<subseteq> processedEvents (listener_step l ev)"
proof (cases ev)
  case (LogDelivered sender invoices lg)
  then show ?thesis by (simp add: onInvoiceBatch_def Let_def)
next
  case (ReceiptSettles i rc)
  then show ?thesis
    by (auto simp: onInvoiceBatch_receipt_def Let_def split: sum.splits option.splits)
next
  case (CallbackSettles i cb)
  then show ?thesis
    by (auto simp: onInvoiceBatch_callback_def split: sum.splits)
qed

lemma processedEvents_run: "processedEvents l \<subseteq> processedEvents (listener_run l evs)"
proof (induction evs arbitrary: l)
  case Nil
  show ?case by (simp add: listener_run_def)
next
  case (Cons ev evs)
  have "processedEvents l \<subseteq> processedEvents (listener_step l ev)"
    by (rule processedEvents_step)
  also have "\<dots> \<subseteq> processedEvents (listener_run (listener_step l ev) evs)"
    by (rule Cons.IH)
  finally show ?case by (simp add: listener_run_Cons)
qed

text \<open>Only the return of a callback adds an identifier.\<close>

lemma processedEvents_changes:
  assumes "processedEvents (listener_step l ev) \<noteq> processedEvents l"
  shows "\<exists>j u. ev = CallbackSettles j (Inr u) \<and> j < length (handlers l)
           \<and> h_phase (handlers l ! j) = AwaitCallback"
proof (cases ev)
  case (LogDelivered sender invoices lg)
  with assms show ?thesis by (simp add: onInvoiceBatch_def Let_def split: if_splits)
next
  case (ReceiptSettles i rc)
  with assms show ?thesis
    by (auto simp: onInvoiceBatch_receipt_def Let_def split: if_splits sum.splits option.splits)
next
  case (CallbackSettles i cb)
  with assms show ?thesis
    by (cases cb) (auto simp: onInvoiceBatch_callback_def split: if_splits)
qed

text \<open>Neither the subscription nor the listening flag is touched by the handler.\<close>

lemma subscription_step:
  "subscriptions (listener_step l ev) = subscriptions l
   \<and> isListening (listener_step l ev) = isListening l"
proof (cases ev)
  case (LogDelivered sender invoices lg)
  then show ?thesis by (simp add: onInvoiceBatch_def Let_def)
next
  case (ReceiptSettles i rc)
  then show ?thesis
    by (auto simp: onInvoiceBatch_receipt_def Let_def split: sum.splits option.splits)
next
  case (CallbackSettles i cb)
  then show ?thesis
    by (auto simp: onInvoiceBatch_callback_def split: sum.splits)
qed

lemma subscription_run:
  "subscriptions (listener_run l evs) = subscriptions l
   \<and> isListening (listener_run l evs) = isListening l"
proof (induction evs arbitrary: l)
  case Nil
  show ?case by (simp add: listener_run_def)
next
  case (Cons ev evs)
  from Cons.IH [of "listener_step l ev"] subscription_step [of l ev]
  show ?case by (simp add: listener_run_Cons)
qed

text \<open>
  For an identifier \<open>k\<close>, the number of callback invocations made plus the number of
  handler invocations for \<open>k\<close> that still await their receipt never grows, except by one
  when a delivery of \<open>k\<close> is accepted: a handler invocation invokes the callback at most
  once.
\<close>

lemma potential_receipt:
  "callbacks_for k (onInvoiceBatch_receipt i rc l) + awaiting_receipt_for k (onInvoiceBatch_receipt i rc l)
     \<le> callbacks_for k l + awaiting_receipt_for k l"
proof (cases "i < length (handlers l) \<and> h_phase (handlers l ! i) = AwaitReceipt")
  case False
  then show ?thesis by (auto simp: onInvoiceBatch_receipt_def)
next
  case True
  let ?P = "\<lambda>h. h_eventId h = k \<and> h_phase h = AwaitReceipt"
  from True have i: "i < length (handlers l)" and ph: "h_phase (handlers l ! i) = AwaitReceipt"
    by simp_all
  have rm: "length (filter ?P (remove_nth i (handlers l))) \<le> length (filter ?P (handlers l))"
    using count_remove_nth [OF i, of ?P] by simp
  show ?thesis
  proof (cases rc)
    case (Inl e)
    with True rm show ?thesis
      by (simp add: onInvoiceBatch_receipt_def callbacks_for_def awaiting_receipt_for_def)
  next
    case (Inr ro)
    show ?thesis
    proof (cases ro)
      case None
      with Inr True rm show ?thesis
        by (simp add: onInvoiceBatch_receipt_def callbacks_for_def awaiting_receipt_for_def)
    next
      case (Some r)
      let ?h = "(handlers l ! i)\<lparr>h_eventData := (h_eventData (handlers l ! i))
                    \<lparr>ev_positionInBlock := Some (tx_index r)\<rparr>, h_phase := AwaitCallback\<rparr>"
      have upd: "length (filter ?P ((handlers l)[i := ?h])) + (if ?P (handlers l ! i) then 1 else 0)
          = length (filter ?P (handlers l)) + (if ?P ?h then 1 else 0)"
        using i by (rule count_list_update)
      have r: "onInvoiceBatch_receipt i rc l
          = l\<lparr>handlers := (handlers l)[i := ?h],
              callbackCalls := callbackCalls l @ [(h_eventId (handlers l ! i), h_eventData ?h)]\<rparr>"
        using True Inr Some by (simp add: onInvoiceBatch_receipt_def Let_def)
      show ?thesis
        using upd ph
        by (simp add: r callbacks_for_def awaiting_receipt_for_def split: if_splits)
    qed
  qed
qed

lemma potential_callback:
  "callbacks_for k (onInvoiceBatch_callback i cb l) + awaiting_receipt_for k (onInvoiceBatch_callback i cb l)
     \<le> callbacks_for k l + awaiting_receipt_for k l"
proof (cases "i < length (handlers l) \<and> h_phase (handlers l ! i) = AwaitCallback")
  case False
  then show ?thesis by (auto simp: onInvoiceBatch_callback_def)
next
  case True
  let ?P = "\<lambda>h. h_eventId h = k \<and> h_phase h = AwaitReceipt"
  from True have i: "i < length (handlers l)" by simp
  have rm: "length (filter ?P (remove_nth i (handlers l))) \<le> length (filter ?P (handlers l))"
    using count_remove_nth [OF i, of ?P] by simp
  from True rm show ?thesis
    by (cases cb) (simp_all add: onInvoiceBatch_callback_def callbacks_for_def
        awaiting_receipt_for_def)
qed

lemma potential_delivery:
  "callbacks_for k (onInvoiceBatch sender invoices lg l)
     + awaiting_receipt_for k (onInvoiceBatch sender invoices lg l)
     \<le> callbacks_for k l + awaiting_receipt_for k l
         + (if log_eventId lg = k \<and> k \<notin> processedEvents l then 1 else 0)"
  by (simp add: onInvoiceBatch_def Let_def callbacks_for_def awaiting_receipt_for_def)

lemma potential_step:
  assumes "\<not> is_delivery_of k ev"
  shows "callbacks_for k (listener_step l ev) + awaiting_receipt_for k (listener_step l ev)
           \<le> callbacks_for k l + awaiting_receipt_for k l"
proof (cases ev)
  case (LogDelivered sender invoices lg)
  with assms potential_delivery [of k sender invoices lg l] show ?thesis by simp
next
  case (ReceiptSettles i rc)
  then show ?thesis by (simp add: potential_receipt)
next
  case (CallbackSettles i cb)
  then show ?thesis by (simp add: potential_callback)
qed

lemma potential_run:
  assumes "\<forall>ev \<in> set evs. \<not> is_delivery_of k ev"
  shows "callbacks_for k (listener_run l evs) + awaiting_receipt_for k (listener_run l evs)
           \<le> callbacks_for k l + awaiting_receipt_for k l"
  using assms
proof (induction evs arbitrary: l)
  case Nil
  show ?case by (simp add: listener_run_def)
next
  case (Cons ev evs)
  then have e: "\<not> is_delivery_of k ev" and r: "\<forall>ev \<in> set evs. \<not> is_delivery_of k ev"
    by simp_all
  have "callbacks_for k (listener_run (listener_step l ev) evs)
          + awaiting_receipt_for k (listener_run (listener_step l ev) evs)
        \<le> callbacks_for k (listener_step l ev) + awaiting_receipt_for k (listener_step l ev)"
    using r by (rule Cons.IH)
  also have "\<dots> \<le> callbacks_for k l + awaiting_receipt_for k l"
    using e by (rule potential_step)
  finally show ?case by (simp add: listener_run_Cons)
qed

text \<open>
  Claim C10. In every state of the listener, whatever other handler invocations are
  suspended, and for every suspended invocation \<open>i\<close>: when its receipt arrives the callback
  is invoked and its identifier is not yet added to \<open>processedEvents\<close>; when its callback
  returns the identifier is added and the invocation ends; when its receipt lookup rejects
  or yields no receipt, or its callback rejects, the identifier is not added, the error is
  printed by the handler's \<open>catch\<close> and the invocation ends. No other step adds an
  identifier, no step of the handler touches the subscription or the listening flag, and a
  delivery whose identifier is not recorded starts a new invocation. In particular, after
  an invocation has ended with an error, a redelivery of a log whose identifier is not
  recorded starts a new invocation, which invokes the callback when its receipt arrives.
\<close>

theorem listener_records_after_callback:
  assumes "i < length (handlers l)"
  shows "(h_phase (handlers l ! i) = AwaitReceipt \<longrightarrow>
            processedEvents (onInvoiceBatch_receipt i (Inr (Some r)) l) = processedEvents l
          \<and> callbackCalls (onInvoiceBatch_receipt i (Inr (Some r)) l)
              = callbackCalls l @
                  [(h_eventId (handlers l ! i),
                    (h_eventData (handlers l ! i))\<lparr>ev_positionInBlock := Some (tx_index r)\<rparr>)]
          \<and> handlers (onInvoiceBatch_receipt i (Inr (Some r)) l)
              = (handlers l)[i := (handlers l ! i)
                   \<lparr>h_eventData := (h_eventData (handlers l ! i))
                                      \<lparr>ev_positionInBlock := Some (tx_index r)\<rparr>,
                    h_phase := AwaitCallback\<rparr>])
       \<and> (h_phase (handlers l ! i) = AwaitCallback \<longrightarrow>
            processedEvents (onInvoiceBatch_callback i (Inr u) l)
              = insert (h_eventId (handlers l ! i)) (processedEvents l)
          \<and> handlers (onInvoiceBatch_callback i (Inr u) l) = remove_nth i (handlers l)
          \<and> errorsLogged (onInvoiceBatch_callback i (Inr u) l) = errorsLogged l)
       \<and> (h_phase (handlers l ! i) = AwaitReceipt \<longrightarrow>
            processedEvents (onInvoiceBatch_receipt i (Inl e) l) = processedEvents l
          \<and> errorsLogged (onInvoiceBatch_receipt i (Inl e) l) = errorsLogged l @ [e]
          \<and> handlers (onInvoiceBatch_receipt i (Inl e) l) = remove_nth i (handlers l)
          \<and> callbackCalls (onInvoiceBatch_receipt i (Inl e) l) = callbackCalls l
          \<and> processedEvents (onInvoiceBatch_receipt i (Inr None) l) = processedEvents l
          \<and> errorsLogged (onInvoiceBatch_receipt i (Inr None) l)
              = errorsLogged l @ [TypeError ''Cannot read properties of null'']
          \<and> handlers (onInvoiceBatch_receipt i (Inr None) l) = remove_nth i (handlers l)
          \<and> callbackCalls (onInvoiceBatch_receipt i (Inr None) l) = callbackCalls l)
       \<and> (h_phase (handlers l ! i) = AwaitCallback \<longrightarrow>
            processedEvents (onInvoiceBatch_callback i (Inl e) l) = processedEvents l
          \<and> errorsLogged (onInvoiceBatch_callback i (Inl e) l) = errorsLogged l @ [e]
          \<and> handlers (onInvoiceBatch_callback i (Inl e) l) = remove_nth i (handlers l))
       \<and> (processedEvents (listener_step l ev) \<noteq> processedEvents l \<longrightarrow>
            (\<exists>j u. ev = CallbackSettles j (Inr u) \<and> j < length (handlers l)
               \<and> h_phase (handlers l ! j) = AwaitCallback))
       \<and> subscriptions (listener_run l evs) = subscriptions l
       \<and> isListening (listener_run l evs) = isListening l
       \<and> (log_eventId lg \<notin> processedEvents l \<longrightarrow>
            handlers (onInvoiceBatch sender invoices lg l)
              = handlers l @
                  [\<lparr>h_eventId = log_eventId lg,
                    h_eventData = \<lparr>ev_chain = l_chain l, ev_sender = sender,
                                   ev_invoices = invoices, ev_blockNumber = log_blockNumber lg,
                                   ev_transactionHash = log_transactionHash lg,
                                   ev_logIndex = log_index lg, ev_positionInBlock = None\<rparr>,
                    h_phase = AwaitReceipt\<rparr>])
       \<and> (h_phase (handlers l ! i) = AwaitReceipt \<and> log_eventId lg \<notin> processedEvents l \<longrightarrow>
            callbackCalls
              (onInvoiceBatch_receipt (length (handlers (onInvoiceBatch_receipt i (Inl e) l)))
                 (Inr (Some r))
                 (onInvoiceBatch sender invoices lg (onInvoiceBatch_receipt i (Inl e) l)))
              = callbackCalls l @ [(log_eventId lg, eventData_of l sender invoices lg r)]
          \<and> callbackCalls
              (onInvoiceBatch_receipt (length (handlers (onInvoiceBatch_receipt i (Inr None) l)))
                 (Inr (Some r))
                 (onInvoiceBatch sender invoices lg (onInvoiceBatch_receipt i (Inr None) l)))
              = callbackCalls l @ [(log_eventId lg, eventData_of l sender invoices lg r)])
       \<and> (h_phase (handlers l ! i) = AwaitCallback \<and> log_eventId lg \<notin> processedEvents l \<longrightarrow>
            callbackCalls
              (onInvoiceBatch_receipt (length (handlers (onInvoiceBatch_callback i (Inl e) l)))
                 (Inr (Some r))
                 (onInvoiceBatch sender invoices lg (onInvoiceBatch_callback i (Inl e) l)))
              = callbackCalls l @ [(log_eventId lg, eventData_of l sender invoices lg r)])"
proof -
  have redeliver: "callbackCalls
              (onInvoiceBatch_receipt (length (handlers l')) (Inr (Some r))
                 (onInvoiceBatch sender invoices lg l'))
              = callbackCalls l @ [(log_eventId lg, eventData_of l sender invoices lg r)]"
    if "processedEvents l' = processedEvents l" "callbackCalls l' = callbackCalls l"
      "l_chain l' = l_chain l" "log_eventId lg \<notin> processedEvents l" for l'
  proof -
    from that have "log_eventId lg \<notin> processedEvents l'" by simp
    then show ?thesis
      using that by (simp add: receipt_after_delivery eventData_of_def)
  qed
  have h1: "h_phase (handlers l ! i) = AwaitReceipt \<and> log_eventId lg \<notin> processedEvents l \<longrightarrow>
            callbackCalls
              (onInvoiceBatch_receipt (length (handlers (onInvoiceBatch_receipt i (Inl e) l)))
                 (Inr (Some r))
                 (onInvoiceBatch sender invoices lg (onInvoiceBatch_receipt i (Inl e) l)))
              = callbackCalls l @ [(log_eventId lg, eventData_of l sender invoices lg r)]
          \<and> callbackCalls
              (onInvoiceBatch_receipt (length (handlers (onInvoiceBatch_receipt i (Inr None) l)))
                 (Inr (Some r))
                 (onInvoiceBatch sender invoices lg (onInvoiceBatch_receipt i (Inr None) l)))
              = callbackCalls l @ [(log_eventId lg, eventData_of l sender invoices lg r)]"
  proof (intro impI conjI)
    assume h: "h_phase (handlers l ! i) = AwaitReceipt \<and> log_eventId lg \<notin> processedEvents l"
    show "callbackCalls
              (onInvoiceBatch_receipt (length (handlers (onInvoiceBatch_receipt i (Inl e) l)))
                 (Inr (Some r))
                 (onInvoiceBatch sender invoices lg (onInvoiceBatch_receipt i (Inl e) l)))
              = callbackCalls l @ [(log_eventId lg, eventData_of l sender invoices lg r)]"
      using assms h by (intro redeliver) (simp_all add: onInvoiceBatch_receipt_def)
    show "callbackCalls
              (onInvoiceBatch_receipt (length (handlers (onInvoiceBatch_receipt i (Inr None) l)))
                 (Inr (Some r))
                 (onInvoiceBatch sender invoices lg (onInvoiceBatch_receipt i (Inr None) l)))
              = callbackCalls l @ [(log_eventId lg, eventData_of l sender invoices lg r)]"
      using assms h by (intro redeliver) (simp_all add: onInvoiceBatch_receipt_def)
  qed
  have h2: "h_phase (handlers l ! i) = AwaitCallback \<and> log_eventId lg \<notin> processedEvents l \<longrightarrow>
            callbackCalls
              (onInvoiceBatch_receipt (length (handlers (onInvoiceBatch_callback i (Inl e) l)))
                 (Inr (Some r))
                 (onInvoiceBatch sender invoices lg (onInvoiceBatch_callback i (Inl e) l)))
              = callbackCalls l @ [(log_eventId lg, eventData_of l sender invoices lg r)]"
  proof
    assume h: "h_phase (handlers l ! i) = AwaitCallback \<and> log_eventId lg \<notin> processedEvents l"
    show "callbackCalls
              (onInvoiceBatch_receipt (length (handlers (onInvoiceBatch_callback i (Inl e) l)))
                 (Inr (Some r))
                 (onInvoiceBatch sender invoices lg (onInvoiceBatch_callback i (Inl e) l)))
              = callbackCalls l @ [(log_eventId lg, eventData_of l sender invoices lg r)]"
      using assms h by (intro redeliver) (simp_all add: onInvoiceBatch_callback_def)
  qed
  have a: "h_phase (handlers l ! i) = AwaitReceipt \<longrightarrow>
            processedEvents (onInvoiceBatch_receipt i (Inr (Some r)) l) = processedEvents l
          \<and> callbackCalls (onInvoiceBatch_receipt i (Inr (Some r)) l)
              = callbackCalls l @
                  [(h_eventId (handlers l ! i),
                    (h_eventData (handlers l ! i))\<lparr>ev_positionInBlock := Some (tx_index r)\<rparr>)]
          \<and> handlers (onInvoiceBatch_receipt i (Inr (Some r)) l)
              = (handlers l)[i := (handlers l ! i)
                   \<lparr>h_eventData := (h_eventData (handlers l ! i))
                                      \<lparr>ev_positionInBlock := Some (tx_index r)\<rparr>,
                    h_phase := AwaitCallback\<rparr>]"
    using assms by (simp add: onInvoiceBatch_receipt_def Let_def)
  have b: "h_phase (handlers l ! i) = AwaitCallback \<longrightarrow>
            processedEvents (onInvoiceBatch_callback i (Inr u) l)
              = insert (h_eventId (handlers l ! i)) (processedEvents l)
          \<and> handlers (onInvoiceBatch_callback i (Inr u) l) = remove_nth i (handlers l)
          \<and> errorsLogged (onInvoiceBatch_callback i (Inr u) l) = errorsLogged l"
    using assms by (simp add: onInvoiceBatch_callback_def)
  have c: "h_phase (handlers l ! i) = AwaitReceipt \<longrightarrow>
            processedEvents (onInvoiceBatch_receipt i (Inl e) l) = processedEvents l
          \<and> errorsLogged (onInvoiceBatch_receipt i (Inl e) l) = errorsLogged l @ [e]
          \<and> handlers (onInvoiceBatch_receipt i (Inl e) l) = remove_nth i (handlers l)
          \<and> callbackCalls (onInvoiceBatch_receipt i (Inl e) l) = callbackCalls l
          \<and> processedEvents (onInvoiceBatch_receipt i (Inr None) l) = processedEvents l
          \<and> errorsLogged (onInvoiceBatch_receipt i (Inr None) l)
              = errorsLogged l @ [TypeError ''Cannot read properties of null'']
          \<and> handlers (onInvoiceBatch_receipt i (Inr None) l) = remove_nth i (handlers l)
          \<and> callbackCalls (onInvoiceBatch_receipt i (Inr None) l) = callbackCalls l"
    using assms by (simp add: onInvoiceBatch_receipt_def)
  have d: "h_phase (handlers l ! i) = AwaitCallback \<longrightarrow>
            processedEvents (onInvoiceBatch_callback i (Inl e) l) = processedEvents l
          \<and> errorsLogged (onInvoiceBatch_callback i (Inl e) l) = errorsLogged l @ [e]
          \<and> handlers (onInvoiceBatch_callback i (Inl e) l) = remove_nth i (handlers l)"
    using assms by (simp add: onInvoiceBatch_callback_def)
  have f: "processedEvents (listener_step l ev) \<noteq> processedEvents l \<longrightarrow>
            (\<exists>j u. ev = CallbackSettles j (Inr u) \<and> j < length (handlers l)
               \<and> h_phase (handlers l ! j) = AwaitCallback)"
    using processedEvents_changes [of l ev] by blast
  have g: "log_eventId lg \<notin> processedEvents l \<longrightarrow>
            handlers (onInvoiceBatch sender invoices lg l)
              = handlers l @
                  [\<lparr>h_eventId = log_eventId lg,
                    h_eventData = \<lparr>ev_chain = l_chain l, ev_sender = sender,
                                   ev_invoices = invoices, ev_blockNumber = log_blockNumber lg,
                                   ev_transactionHash = log_transactionHash lg,
                                   ev_logIndex = log_index lg, ev_positionInBlock = None\<rparr>,
                    h_phase = AwaitReceipt\<rparr>]"
    by (simp add: onInvoiceBatch_def)
  from a b c d f g h1 h2 subscription_run [of l evs] show ?thesis by blast
qed

text \<open>
  Claim C6, as amended. The identifier of a delivery is made of the block hash, the
  transaction hash and the log index. In every state of the listener a delivery whose
  identifier is in \<open>processedEvents\<close> leaves the listener as it is: the callback is not
  invoked and nothing is printed. An identifier is never removed, so once the callback of
  a handler invocation has returned, every later delivery with its identifier is discarded,
  whatever the listener handles in between. Of two deliveries with the same identifier, the
  second arriving when the identifier is recorded, at most one invokes the callback,
  whatever else is delivered or settles before, between and after them.
\<close>

theorem listener_discards_recorded:
  "(log_eventId lg \<in> processedEvents l \<longrightarrow> onInvoiceBatch sender invoices lg l = l)
   \<and> processedEvents l \<subseteq> processedEvents (listener_run l evs)
   \<and> (i < length (handlers l) \<and> h_phase (handlers l ! i) = AwaitCallback
        \<and> log_eventId lg = h_eventId (handlers l ! i) \<longrightarrow>
        onInvoiceBatch sender invoices lg (listener_run (onInvoiceBatch_callback i (Inr u) l) evs)
          = listener_run (onInvoiceBatch_callback i (Inr u) l) evs)
   \<and> (log_eventId lg' = log_eventId lg
        \<and> (\<forall>ev \<in> set evs1. \<not> is_delivery_of (log_eventId lg) ev)
        \<and> (\<forall>ev \<in> set evs2. \<not> is_delivery_of (log_eventId lg) ev)
        \<and> log_eventId lg
             \<in> processedEvents (listener_run l (LogDelivered sender invoices lg # evs1)) \<longrightarrow>
        callbacks_for (log_eventId lg)
            (listener_run l (LogDelivered sender invoices lg # evs1
                             @ LogDelivered sender' invoices' lg' # evs2))
          \<le> callbacks_for (log_eventId lg) l + awaiting_receipt_for (log_eventId lg) l + 1)"
proof (intro conjI impI)
  assume "log_eventId lg \<in> processedEvents l"
  then show "onInvoiceBatch sender invoices lg l = l" by (rule onInvoiceBatch_recorded)
next
  show "processedEvents l \<subseteq> processedEvents (listener_run l evs)"
    by (rule processedEvents_run)
next
  assume a: "i < length (handlers l) \<and> h_phase (handlers l ! i) = AwaitCallback
        \<and> log_eventId lg = h_eventId (handlers l ! i)"
  let ?l1 = "onInvoiceBatch_callback i (Inr u) l"
  from a have "log_eventId lg \<in> processedEvents ?l1"
    by (simp add: onInvoiceBatch_callback_def)
  with processedEvents_run [of ?l1 evs] have "log_eventId lg \<in> processedEvents (listener_run ?l1 evs)"
    by blast
  then show "onInvoiceBatch sender invoices lg (listener_run ?l1 evs) = listener_run ?l1 evs"
    by (rule onInvoiceBatch_recorded)
next
  let ?k = "log_eventId lg"
  assume a: "log_eventId lg' = ?k
        \<and> (\<forall>ev \<in> set evs1. \<not> is_delivery_of ?k ev)
        \<and> (\<forall>ev \<in> set evs2. \<not> is_delivery_of ?k ev)
        \<and> ?k \<in> processedEvents (listener_run l (LogDelivered sender invoices lg # evs1))"
  let ?l1 = "onInvoiceBatch sender invoices lg l"
  let ?l2 = "listener_run ?l1 evs1"
  let ?l4 = "listener_run ?l2 evs2"
  from a have rec: "?k \<in> processedEvents ?l2" by (simp add: listener_run_Cons)
  from a rec have second: "onInvoiceBatch sender' invoices' lg' ?l2 = ?l2"
    by (simp add: onInvoiceBatch_recorded)
  have run: "listener_run l (LogDelivered sender invoices lg # evs1
                             @ LogDelivered sender' invoices' lg' # evs2) = ?l4"
    by (simp add: listener_run_Cons listener_run_append second)
  have "callbacks_for ?k ?l4 + awaiting_receipt_for ?k ?l4
      \<le> callbacks_for ?k ?l2 + awaiting_receipt_for ?k ?l2"
    using a by (intro potential_run) simp
  also have "\<dots> \<le> callbacks_for ?k ?l1 + awaiting_receipt_for ?k ?l1"
    using a by (intro potential_run) simp
  also have "\<dots> \<le> callbacks_for ?k l + awaiting_receipt_for ?k l + 1"
    using potential_delivery [of ?k sender invoices lg l] by (simp split: if_splits)
  finally show "callbacks_for ?k (listener_run l (LogDelivered sender invoices lg # evs1
                             @ LogDelivered sender' invoices' lg' # evs2))
          \<le> callbacks_for ?k l + awaiting_receipt_for ?k l + 1"
    by (simp add: run)
qed

subsection \<open>Starting and stopping a listener\<close>

text \<open>
  Claim C9. \<open>start\<close> on a listener that is listening returns it unchanged, whatever the
  node would answer, so a second \<open>start\<close> after a successful one registers nothing;
  on a listener that is not listening it registers one handler and sets the flag.
  \<open>stop\<close> on a listener that is not listening returns it unchanged; otherwise it drops
  the registered handlers and clears the flag; a second \<open>stop\<close> changes nothing.
\<close>

theorem start_stop_idempotent:
  "(isListening l \<longrightarrow> start latestBlock l = Inr l)
   \<and> (start latestBlock l = Inr l' \<longrightarrow> start latestBlock' l' = Inr l')
   \<and> (\<not> isListening l \<longrightarrow> start (Inr n) l = Inr (l\<lparr>subscriptions := Suc (subscriptions l), isListening := True\<rparr>))
   \<and> (\<not> isListening l \<longrightarrow> stop l = l)
   \<and> (isListening l \<longrightarrow> stop l = l\<lparr>subscriptions := 0, isListening := False\<rparr>)
   \<and> stop (stop l) = stop l"
  by (auto simp: start_def stop_def split: sum.splits)

subsection \<open>Initialisation\<close>

lemma CHAINS_entry:
  assumes "(k, c) \<in> set (CHAINS env)" and "truthy (rpc c)"
  shows "has_rpc env c"
  using assms
  by (auto simp: CHAINS_def has_rpc_def template_def truthy_def)

lemma getEnabledChains_has_rpc:
  assumes "c \<in> set (getEnabledChains env)"
  shows "has_rpc env c"
proof -
  from assms obtain k where "map_of (CHAINS env) k = Some c" and t: "truthy (rpc c)"
    by (auto simp: getEnabledChains_def Let_def split: option.splits if_splits)
  then have "(k, c) \<in> set (CHAINS env)" by (simp add: map_of_SomeD)
  then show ?thesis using t by (rule CHAINS_entry)
qed

lemma Relayer_new_fields:
  assumes "Relayer_new L env = Inr r"
  shows "listeners r = []" "console r = []"
    and "\<forall>c \<in> set (enabledChains r). has_rpc env c"
proof -
  from assms have r: "r = \<lparr>enabledChains =
            map (\<lambda>chain. chain\<lparr>invoiceBatcherAddress :=
                                  env (template (envPrefix chain) @ ''_INVOICEBATCHER_ADDRESS''),
                                rpc := env (template (envPrefix chain) @ ''_RPC'')\<rparr>)
                (getEnabledChains env),
          listeners = [], processingEvents = Map.empty, running = [], calls = [], console = []\<rparr>"
    by (simp add: Relayer_new_def Let_def split: if_splits)
  show "listeners r = []" "console r = []" by (simp_all add: r)
  show "\<forall>c \<in> set (enabledChains r). has_rpc env c"
    using getEnabledChains_has_rpc [of _ env] by (auto simp: r has_rpc_def)
qed

lemma ChainListener_new_ok:
  assumes "has_rpc env c" and "has_contract env c"
  shows "\<exists>l. ChainListener_new env c = Inr l \<and> l_chain l = c \<and> \<not> isListening l"
  using assms
  by (auto simp: ChainListener_new_def has_rpc_def has_contract_def contractEnvKey_def truthy_def
      Let_def split: option.splits)

lemma keyed_by_chain_update:
  assumes "keyed_by_chain ls" and "chainId (l_chain l) = k" and "\<not> isListening l"
  shows "keyed_by_chain (AList.update k l ls)"
  using assms
proof (induction ls)
  case Nil
  then show ?case by (simp add: keyed_by_chain_def)
next
  case (Cons a ls)
  then show ?case by (cases a) (auto simp: keyed_by_chain_def)
qed

lemma init_loop_ok:
  assumes "\<forall>c \<in> set cs. has_rpc env c"
  shows "\<exists>r'. init_loop env cs r = Inr r'
           \<and> fst ` set (listeners r') = fst ` set (listeners r) \<union> chainId ` {c \<in> set cs. has_contract env c}
           \<and> console r' = console r @ skip_warnings env cs
           \<and> (keyed_by_chain (listeners r) \<longrightarrow> keyed_by_chain (listeners r'))"
  using assms
proof (induction cs arbitrary: r)
  case Nil
  then show ?case by (simp add: skip_warnings_def)
next
  case (Cons c cs)
  then have rest: "\<forall>c \<in> set cs. has_rpc env c" and c: "has_rpc env c" by simp_all
  show ?case
  proof (cases "has_contract env c")
    case False
    let ?r1 = "r\<lparr>console := console r @ [SkippingChain (name c) (contractEnvKey c)]\<rparr>"
    from Cons.IH [OF rest, of ?r1] obtain r' where
      r': "init_loop env cs ?r1 = Inr r'"
        "fst ` set (listeners r') = fst ` set (listeners ?r1) \<union> chainId ` {c \<in> set cs. has_contract env c}"
        "console r' = console ?r1 @ skip_warnings env cs"
        "keyed_by_chain (listeners ?r1) \<longrightarrow> keyed_by_chain (listeners r')"
      by blast
    have "init_loop env (c # cs) r = init_loop env cs ?r1"
      using False by (simp add: has_contract_def contractEnvKey_def Let_def)
    with r' False show ?thesis
      by (auto simp: skip_warnings_def)
  next
    case True
    from ChainListener_new_ok [OF c True] obtain l where
      l: "ChainListener_new env c = Inr l" "l_chain l = c" "\<not> isListening l" by blast
    let ?r1 = "r\<lparr>listeners := AList.update (chainId c) l (listeners r)\<rparr>"
    from Cons.IH [OF rest, of ?r1] obtain r' where
      r': "init_loop env cs ?r1 = Inr r'"
        "fst ` set (listeners r') = fst ` set (listeners ?r1) \<union> chainId ` {c \<in> set cs. has_contract env c}"
        "console r' = console ?r1 @ skip_warnings env cs"
        "keyed_by_chain (listeners ?r1) \<longrightarrow> keyed_by_chain (listeners r')"
      by blast
    have step: "init_loop env (c # cs) r = init_loop env cs ?r1"
      using True l by (simp add: has_contract_def contractEnvKey_def Let_def)
    have k: "keyed_by_chain (listeners r) \<longrightarrow> keyed_by_chain (listeners ?r1)"
      using l by (simp add: keyed_by_chain_update)
    have d: "fst ` set (listeners ?r1) = {chainId c} \<union> fst ` set (listeners r)"
      by (simp add: dom_update)
    from step r' True k d show ?thesis
      by (auto simp: skip_warnings_def)
  qed
qed

text \<open>
  Claim C7, as amended. For a relayer constructed from the environment, every enabled
  chain has its RPC configured, and \<open>init\<close> constructs a listener for exactly the
  enabled chains whose contract address is configured, each stored under its chain id,
  printing one warning for each enabled chain it skips. It fails if and only if no enabled
  chain has a contract address, with the error "No chains configured with valid invoice
  batcher addresses", and then the process exits with status 1.
\<close>

theorem init_listeners:
  assumes "Relayer_new L env = Inr r"
  shows "((\<exists>e. init env r = Inl e) \<longleftrightarrow> (\<forall>chain \<in> set (enabledChains r). \<not> has_contract env chain))
       \<and> (init env r = Inl e \<longrightarrow>
            e = Error ''No chains configured with valid invoice batcher addresses''
          \<and> main L env getBlockNumber = Some 1)
       \<and> (init env r = Inr r' \<longrightarrow>
            fst ` set (listeners r') = chainId ` {chain \<in> set (enabledChains r). has_contract env chain}
          \<and> keyed_by_chain (listeners r')
          \<and> console r' = skip_warnings env (enabledChains r))
       \<and> (\<forall>chain \<in> set (enabledChains r). has_rpc env chain)"
proof -
  note f = Relayer_new_fields [OF assms]
  from init_loop_ok [OF f(3), of r] obtain r1 where
    r1: "init_loop env (enabledChains r) r = Inr r1"
      "fst ` set (listeners r1) = chainId ` {c \<in> set (enabledChains r). has_contract env c}"
      "console r1 = skip_warnings env (enabledChains r)"
      "keyed_by_chain (listeners r1)"
    using f(1,2) by (auto simp: keyed_by_chain_def)
  have empty: "(listeners r1 = []) = (\<forall>chain \<in> set (enabledChains r). \<not> has_contract env chain)"
  proof -
    have "(listeners r1 = []) = (fst ` set (listeners r1) = {})" by simp
    also have "\<dots> = (\<forall>chain \<in> set (enabledChains r). \<not> has_contract env chain)"
      unfolding r1(2) by auto
    finally show ?thesis .
  qed
  have i: "init env r = (if listeners r1 = [] then
              Inl (Error ''No chains configured with valid invoice batcher addresses'') else Inr r1)"
    by (simp add: init_def r1(1))
  have a: "(\<exists>e. init env r = Inl e) \<longleftrightarrow> (\<forall>chain \<in> set (enabledChains r). \<not> has_contract env chain)"
    using empty by (simp add: i)
  have b: "init env r = Inl e \<longrightarrow>
            e = Error ''No chains configured with valid invoice batcher addresses''
          \<and> main L env getBlockNumber = Some 1"
    using assms by (auto simp: i main_def split: if_splits)
  have c: "init env r = Inr r' \<longrightarrow>
            fst ` set (listeners r') = chainId ` {chain \<in> set (enabledChains r). has_contract env chain}
          \<and> keyed_by_chain (listeners r')
          \<and> console r' = skip_warnings env (enabledChains r)"
    using r1 by (auto simp: i split: if_splits)
  from a b c f(3) show ?thesis by blast
qed

subsection \<open>The example scenario\<close>

text \<open>Base Sepolia emits a batch event; the first two polls find the proof not ready, the
  third returns it; the update of Optimism Sepolia succeeds and that of Arbitrum Sepolia
  fails.\<close>

lemmas ex_defs = ex_lib_def ex_base_def ex_optimism_def ex_arbitrum_def ex_relayer_def ex_event_def
  ex_outs_def ex_world_def ex_receipt_def ex_receipt_no_batch_def

lemma ex_proof_any:
  assumes c: "chains_of enabled 84532 = Some ex_base"
  shows "getPolymerProof ex_lib enabled (ex_world (Inr (Some ex_receipt))) 84532 100 ''0xt1'' 5
   = ([GetTransactionReceipt (Some ''http://base'') ''0xt1'', RequestProof 84532 100 7 1,
       QueryProof ''job-1'', Sleep 500, QueryProof ''job-1'', Sleep 500, QueryProof ''job-1''],
      Inr ''0xQUJD'')"
proof -
  have f: "findIndex (is_batch_log ex_lib) (logs ex_receipt) = 1"
    by (simp add: is_batch_log_def ex_defs)
  have p: "poll_loop ex_lib (w_polls (ex_world (Inr (Some ex_receipt)))) ''job-1'' 0 tr
      = (tr @ waiting_rounds ''job-1'' 2 @ [QueryProof ''job-1''], Inr (''0x'' @ base64_to_hex ex_lib ''QUJD''))" for tr
    by (rule poll_loop_ready) (simp_all add: ex_world_def not_ready_def less_Suc_eq numeral_2_eq_2)
  have w: "w_receipt (ex_world (Inr (Some ex_receipt))) = Inr (Some ex_receipt)"
    "w_request (ex_world (Inr (Some ex_receipt))) = Inr \<lparr>status = 200, response_result = ''job-1''\<rparr>"
    by (simp_all add: ex_world_def)
  have v: "tx_index ex_receipt = 7" "rpc ex_base = Some ''http://base''"
    "base64_to_hex ex_lib ''QUJD'' = ''QUJD''"
    by (simp_all add: ex_defs)
  show ?thesis
    unfolding getPolymerProof_def c
    by (simp add: w f p v waiting_rounds_def numeral_2_eq_2)
qed

lemma ex_proof:
  "getPolymerProof ex_lib [ex_base, ex_optimism, ex_arbitrum] (ex_world (Inr (Some ex_receipt)))
     84532 100 ''0xt1'' 5
   = ([GetTransactionReceipt (Some ''http://base'') ''0xt1'', RequestProof 84532 100 7 1,
       QueryProof ''job-1'', Sleep 500, QueryProof ''job-1'', Sleep 500, QueryProof ''job-1''],
      Inr ''0xQUJD'')"
  by (rule ex_proof_any) (simp add: chains_of_def ex_defs)



lemma ex_chain_ids:
  "chainId ex_base = 84532" "chainId ex_optimism = 11155420" "chainId ex_arbitrum = 421614"
  by (simp_all add: ex_defs)

lemma ex_event_fields:
  "chainId (ev_chain ex_event) = 84532" "ev_blockNumber ex_event = 100"
  "ev_transactionHash ex_event = ''0xt1''" "ev_logIndex ex_event = 5" "ev_chain ex_event = ex_base"
  by (simp_all add: ex_defs)


lemma ex_busy:
  "handleEvent ex_event ex_relayer
     = ex_relayer\<lparr>processingEvents := [handleEvent_eventId ex_event \<mapsto> True],
                  running := [\<lparr>t_event = ex_event, t_phase = AwaitProof\<rparr>],
                  calls := [GetPolymerProof 84532 100 ''0xt1'' 5]\<rparr>"
  by (simp add: handleEvent_def Let_def ex_event_fields ex_chain_ids) (simp add: ex_relayer_def)

theorem handleEvent_at_most_one_in_flight_witness:
  "running ex_relayer = [] \<and> processingEvents ex_relayer = Map.empty
   \<and> processingEvents (relayer_run ex_lib ex_relayer [EventDelivered ex_event])
        (handleEvent_eventId ex_event) \<noteq> None
   \<and> handleEvent ex_event (relayer_run ex_lib ex_relayer [EventDelivered ex_event])
        = relayer_run ex_lib ex_relayer [EventDelivered ex_event]
   \<and> calls (relayer_run ex_lib ex_relayer [EventDelivered ex_event, EventDelivered ex_event])
        = [GetPolymerProof 84532 100 ''0xt1'' 5]
   \<and> (\<exists>t \<in> set (running (relayer_run ex_lib ex_relayer [EventDelivered ex_event])).
         handleEvent_eventId (t_event t) = handleEvent_eventId ex_event)
   \<and> length (in_flight (relayer_run ex_lib ex_relayer [EventDelivered ex_event]) 84532 ''0xt1'') \<le> 1"
  using handleEvent_at_most_one_in_flight
    [where ?r0.0 = ex_relayer and L = ex_lib and evs = "[EventDelivered ex_event]"
       and eventData = ex_event and c = 84532 and h = "''0xt1''"]
  by (simp add: relayer_run_def ex_busy) (simp add: ex_relayer_def)






text \<open>The listener of Base Sepolia receives the same log twice, and the log of the same
  transaction from another block.\<close>

lemma ex_listener_fields:
  "processedEvents ex_listener = {}" "callbackCalls ex_listener = []" "handlers ex_listener = []"
  "isListening ex_listener" "subscriptions ex_listener = 1" "errorsLogged ex_listener = []"
  by (simp_all add: ex_listener_def)

lemma ex_log_ids:
  "log_eventId ex_log_reorg \<noteq> log_eventId ex_log"
  "log_transactionHash ex_log_reorg = log_transactionHash ex_log"
  "log_index ex_log_reorg = log_index ex_log"
  by (simp_all add: log_eventId_def ex_log_def ex_log_reorg_def)

theorem listener_dedup_counterexample:
  "length (callbackCalls (listener_run ex_listener
      [LogDelivered ''0xAA'' [''h1'', ''h2''] ex_log,
       LogDelivered ''0xAA'' [''h1'', ''h2''] ex_log,
       ReceiptSettles 0 (Inr (Some ex_receipt)),
       ReceiptSettles 1 (Inr (Some ex_receipt))])) = 2
   \<and> log_eventId ex_log
       \<in> processedEvents (deliver_alone ''0xAA'' [''h1'', ''h2''] ex_log (Inr (Some ex_receipt))
                            (Inr ()) ex_listener)
   \<and> log_transactionHash ex_log_reorg = log_transactionHash ex_log
   \<and> log_index ex_log_reorg = log_index ex_log
   \<and> length (callbackCalls
        (deliver_alone ''0xAA'' [''h1'', ''h2''] ex_log_reorg (Inr (Some ex_receipt)) (Inr ())
           (deliver_alone ''0xAA'' [''h1'', ''h2''] ex_log (Inr (Some ex_receipt)) (Inr ())
              ex_listener))) = 2"
proof -
  have a: "length (callbackCalls (listener_run ex_listener
      [LogDelivered ''0xAA'' [''h1'', ''h2''] ex_log,
       LogDelivered ''0xAA'' [''h1'', ''h2''] ex_log,
       ReceiptSettles 0 (Inr (Some ex_receipt)),
       ReceiptSettles 1 (Inr (Some ex_receipt))])) = 2"
    by (simp add: listener_run_def onInvoiceBatch_def onInvoiceBatch_receipt_def Let_def
        ex_listener_fields)
  let ?l1 = "deliver_alone ''0xAA'' [''h1'', ''h2''] ex_log (Inr (Some ex_receipt)) (Inr ()) ex_listener"
  have n: "log_eventId ex_log \<notin> processedEvents ex_listener" by (simp add: ex_listener_fields)
  have p1: "processedEvents ?l1 = {log_eventId ex_log}"
    by (simp add: deliver_alone_returns [OF n] ex_listener_fields)
  have c1: "length (callbackCalls ?l1) = 1"
    by (simp add: deliver_alone_returns [OF n] ex_listener_fields)
  have n2: "log_eventId ex_log_reorg \<notin> processedEvents ?l1"
    using ex_log_ids(1) by (simp add: p1)
  have c2: "length (callbackCalls
        (deliver_alone ''0xAA'' [''h1'', ''h2''] ex_log_reorg (Inr (Some ex_receipt)) (Inr ()) ?l1)) = 2"
    by (simp add: deliver_alone_returns [OF n2] c1)
  from a p1 c2 ex_log_ids show ?thesis by simp
qed

text \<open>Two logs are being handled at once: the handler of the first is suspended while
  the second is delivered.\<close>

lemma ex_overlap_fields:
  "handlers ex_overlap
     = [\<lparr>h_eventId = log_eventId ex_log,
         h_eventData = \<lparr>ev_chain = ex_base, ev_sender = ''0xAA'', ev_invoices = [''h1'', ''h2''],
                        ev_blockNumber = 100, ev_transactionHash = ''0xt1'', ev_logIndex = 5,
                        ev_positionInBlock = None\<rparr>,
         h_phase = AwaitReceipt\<rparr>,
        \<lparr>h_eventId = log_eventId ex_log2,
         h_eventData = \<lparr>ev_chain = ex_base, ev_sender = ''0xBB'', ev_invoices = [''h3''],
                        ev_blockNumber = 100, ev_transactionHash = ''0xt2'', ev_logIndex = 0,
                        ev_positionInBlock = None\<rparr>,
         h_phase = AwaitReceipt\<rparr>]"
  "processedEvents ex_overlap = {}" "callbackCalls ex_overlap = []" "errorsLogged ex_overlap = []"
  by (simp_all add: ex_overlap_def listener_run_def onInvoiceBatch_def Let_def ex_listener_fields)
     (simp_all add: ex_listener_def ex_log_def ex_log2_def)

lemma ex_log2_id: "log_eventId ex_log2 \<noteq> log_eventId ex_log"
  by (simp add: log_eventId_def ex_log_def ex_log2_def)

lemma ex_called_fields:
  "handlers ex_overlap_called
     = [\<lparr>h_eventId = log_eventId ex_log,
         h_eventData = \<lparr>ev_chain = ex_base, ev_sender = ''0xAA'', ev_invoices = [''h1'', ''h2''],
                        ev_blockNumber = 100, ev_transactionHash = ''0xt1'', ev_logIndex = 5,
                        ev_positionInBlock = Some 7\<rparr>,
         h_phase = AwaitCallback\<rparr>,
        \<lparr>h_eventId = log_eventId ex_log2,
         h_eventData = \<lparr>ev_chain = ex_base, ev_sender = ''0xBB'', ev_invoices = [''h3''],
                        ev_blockNumber = 100, ev_transactionHash = ''0xt2'', ev_logIndex = 0,
                        ev_positionInBlock = None\<rparr>,
         h_phase = AwaitReceipt\<rparr>]"
  "processedEvents ex_overlap_called = {}" "errorsLogged ex_overlap_called = []"
  "map fst (callbackCalls ex_overlap_called) = [log_eventId ex_log]"
  by (simp_all add: ex_overlap_called_def onInvoiceBatch_receipt_def Let_def ex_overlap_fields
      ex_receipt_def)

theorem listener_records_after_callback_witness:
  "(0::nat) < length (handlers ex_overlap)
   \<and> length (handlers ex_overlap) = 2
   \<and> h_phase (handlers ex_overlap ! 0) = AwaitReceipt
   \<and> h_eventId (handlers ex_overlap ! 0) = log_eventId ex_log
   \<and> processedEvents (onInvoiceBatch_receipt 0 (Inr (Some ex_receipt)) ex_overlap) = {}
   \<and> map fst (callbackCalls (onInvoiceBatch_receipt 0 (Inr (Some ex_receipt)) ex_overlap))
       = [log_eventId ex_log]
   \<and> processedEvents (onInvoiceBatch_receipt 0 (Inl (Error ''timeout'')) ex_overlap) = {}
   \<and> errorsLogged (onInvoiceBatch_receipt 0 (Inl (Error ''timeout'')) ex_overlap)
       = [Error ''timeout'']
   \<and> length (handlers (onInvoiceBatch_receipt 0 (Inl (Error ''timeout'')) ex_overlap)) = 1
   \<and> callbackCalls (onInvoiceBatch_receipt 0 (Inl (Error ''timeout'')) ex_overlap) = []
   \<and> (0::nat) < length (handlers ex_overlap_called)
   \<and> h_phase (handlers ex_overlap_called ! 0) = AwaitCallback
   \<and> processedEvents (onInvoiceBatch_callback 0 (Inr ()) ex_overlap_called) = {log_eventId ex_log}
   \<and> length (handlers (onInvoiceBatch_callback 0 (Inr ()) ex_overlap_called)) = 1
   \<and> processedEvents (onInvoiceBatch_callback 0 (Inl (Error ''callback failed'')) ex_overlap_called)
       = {}
   \<and> errorsLogged (onInvoiceBatch_callback 0 (Inl (Error ''callback failed'')) ex_overlap_called)
       = [Error ''callback failed'']
   \<and> processedEvents (listener_step ex_overlap_called (CallbackSettles 0 (Inr ())))
       \<noteq> processedEvents ex_overlap_called
   \<and> subscriptions (listener_run ex_overlap_called [CallbackSettles 0 (Inl (Error ''callback failed''))])
       = 1
   \<and> isListening (listener_run ex_overlap_called [CallbackSettles 0 (Inl (Error ''callback failed''))])
   \<and> log_eventId ex_log
       \<notin> processedEvents (onInvoiceBatch_callback 0 (Inl (Error ''callback failed'')) ex_overlap_called)
   \<and> log_eventId ex_log \<notin> processedEvents ex_overlap_called
   \<and> length (handlers (onInvoiceBatch ''0xAA'' [''h1'', ''h2''] ex_log ex_overlap_called)) = 3
   \<and> map fst (callbackCalls
        (onInvoiceBatch_receipt
           (length (handlers (onInvoiceBatch_callback 0 (Inl (Error ''callback failed''))
                                ex_overlap_called)))
           (Inr (Some ex_receipt))
           (onInvoiceBatch ''0xAA'' [''h1'', ''h2''] ex_log
              (onInvoiceBatch_callback 0 (Inl (Error ''callback failed'')) ex_overlap_called))))
       = [log_eventId ex_log, log_eventId ex_log]"
proof -
  have i1: "(0::nat) < length (handlers ex_overlap)" by (simp add: ex_overlap_fields)
  have i2: "(0::nat) < length (handlers ex_overlap_called)" by (simp add: ex_called_fields)
  have p1: "h_phase (handlers ex_overlap ! 0) = AwaitReceipt" by (simp add: ex_overlap_fields)
  have p2: "h_phase (handlers ex_overlap_called ! 0) = AwaitCallback"
    by (simp add: ex_called_fields)
  have s: "subscriptions ex_overlap_called = 1" "isListening ex_overlap_called"
    by (simp_all add: ex_overlap_called_def onInvoiceBatch_receipt_def Let_def ex_overlap_fields
        ex_overlap_def listener_run_def onInvoiceBatch_def ex_listener_fields)
  note a = listener_records_after_callback [OF i1, where r = ex_receipt and e = "Error ''timeout''"
      and u = "()" and ev = "CallbackSettles 0 (Inr ())" and evs = "[]" and lg = ex_log
      and sender = "''0xAA''" and invoices = "[''h1'', ''h2'']"]
  note b = listener_records_after_callback [OF i2, where r = ex_receipt
      and e = "Error ''callback failed''" and u = "()" and ev = "CallbackSettles 0 (Inr ())"
      and evs = "[CallbackSettles 0 (Inl (Error ''callback failed''))]" and lg = ex_log
      and sender = "''0xAA''" and invoices = "[''h1'', ''h2'']"]
  have ch: "processedEvents (listener_step ex_overlap_called (CallbackSettles 0 (Inr ())))
       \<noteq> processedEvents ex_overlap_called"
    using b p2 by (simp add: ex_called_fields)
  have ni: "log_eventId ex_log \<notin> processedEvents ex_overlap_called"
    by (simp add: ex_called_fields)
  from b p2 ni have "callbackCalls
        (onInvoiceBatch_receipt
           (length (handlers (onInvoiceBatch_callback 0 (Inl (Error ''callback failed''))
                                ex_overlap_called)))
           (Inr (Some ex_receipt))
           (onInvoiceBatch ''0xAA'' [''h1'', ''h2''] ex_log
              (onInvoiceBatch_callback 0 (Inl (Error ''callback failed'')) ex_overlap_called)))
      = callbackCalls ex_overlap_called
          @ [(log_eventId ex_log, eventData_of ex_overlap_called ''0xAA'' [''h1'', ''h2''] ex_log ex_receipt)]"
    by blast
  then have rd: "map fst (callbackCalls
        (onInvoiceBatch_receipt
           (length (handlers (onInvoiceBatch_callback 0 (Inl (Error ''callback failed''))
                                ex_overlap_called)))
           (Inr (Some ex_receipt))
           (onInvoiceBatch ''0xAA'' [''h1'', ''h2''] ex_log
              (onInvoiceBatch_callback 0 (Inl (Error ''callback failed'')) ex_overlap_called))))
       = [log_eventId ex_log, log_eventId ex_log]"
    by (simp add: ex_called_fields(4))
  have rest: "(0::nat) < length (handlers ex_overlap)
   \<and> length (handlers ex_overlap) = 2
   \<and> h_phase (handlers ex_overlap ! 0) = AwaitReceipt
   \<and> h_eventId (handlers ex_overlap ! 0) = log_eventId ex_log
   \<and> processedEvents (onInvoiceBatch_receipt 0 (Inr (Some ex_receipt)) ex_overlap) = {}
   \<and> map fst (callbackCalls (onInvoiceBatch_receipt 0 (Inr (Some ex_receipt)) ex_overlap))
       = [log_eventId ex_log]
   \<and> processedEvents (onInvoiceBatch_receipt 0 (Inl (Error ''timeout'')) ex_overlap) = {}
   \<and> errorsLogged (onInvoiceBatch_receipt 0 (Inl (Error ''timeout'')) ex_overlap)
       = [Error ''timeout'']
   \<and> length (handlers (onInvoiceBatch_receipt 0 (Inl (Error ''timeout'')) ex_overlap)) = 1
   \<and> callbackCalls (onInvoiceBatch_receipt 0 (Inl (Error ''timeout'')) ex_overlap) = []
   \<and> (0::nat) < length (handlers ex_overlap_called)
   \<and> h_phase (handlers ex_overlap_called ! 0) = AwaitCallback
   \<and> processedEvents (onInvoiceBatch_callback 0 (Inr ()) ex_overlap_called) = {log_eventId ex_log}
   \<and> length (handlers (onInvoiceBatch_callback 0 (Inr ()) ex_overlap_called)) = 1
   \<and> processedEvents (onInvoiceBatch_callback 0 (Inl (Error ''callback failed'')) ex_overlap_called)
       = {}
   \<and> errorsLogged (onInvoiceBatch_callback 0 (Inl (Error ''callback failed'')) ex_overlap_called)
       = [Error ''callback failed'']
   \<and> processedEvents (listener_step ex_overlap_called (CallbackSettles 0 (Inr ())))
       \<noteq> processedEvents ex_overlap_called
   \<and> subscriptions (listener_run ex_overlap_called [CallbackSettles 0 (Inl (Error ''callback failed''))])
       = 1
   \<and> isListening (listener_run ex_overlap_called [CallbackSettles 0 (Inl (Error ''callback failed''))])
   \<and> log_eventId ex_log
       \<notin> processedEvents (onInvoiceBatch_callback 0 (Inl (Error ''callback failed'')) ex_overlap_called)
   \<and> log_eventId ex_log \<notin> processedEvents ex_overlap_called
   \<and> length (handlers (onInvoiceBatch ''0xAA'' [''h1'', ''h2''] ex_log ex_overlap_called)) = 3"
    using a b p1 p2 i1 i2 ch s
    by (simp add: ex_overlap_fields ex_called_fields remove_nth_def)
  from rest rd show ?thesis by blast
qed

theorem listener_discards_recorded_witness:
  "log_eventId ex_log
     \<in> processedEvents (onInvoiceBatch_callback 0 (Inr ()) ex_overlap_called)
   \<and> onInvoiceBatch ''0xAA'' [''h1'', ''h2''] ex_log
        (onInvoiceBatch_callback 0 (Inr ()) ex_overlap_called)
       = onInvoiceBatch_callback 0 (Inr ()) ex_overlap_called
   \<and> (0::nat) < length (handlers ex_overlap_called)
   \<and> h_phase (handlers ex_overlap_called ! 0) = AwaitCallback
   \<and> log_eventId ex_log = h_eventId (handlers ex_overlap_called ! 0)
   \<and> onInvoiceBatch ''0xAA'' [''h1'', ''h2''] ex_log
        (listener_run (onInvoiceBatch_callback 0 (Inr ()) ex_overlap_called)
           [ReceiptSettles 0 (Inr (Some ex_receipt))])
       = listener_run (onInvoiceBatch_callback 0 (Inr ()) ex_overlap_called)
           [ReceiptSettles 0 (Inr (Some ex_receipt))]
   \<and> \<not> is_delivery_of (log_eventId ex_log) (LogDelivered ''0xBB'' [''h3''] ex_log2)
   \<and> log_eventId ex_log
        \<in> processedEvents (listener_run ex_listener
             [LogDelivered ''0xAA'' [''h1'', ''h2''] ex_log, LogDelivered ''0xBB'' [''h3''] ex_log2,
              ReceiptSettles 0 (Inr (Some ex_receipt)), CallbackSettles 0 (Inr ())])
   \<and> callbacks_for (log_eventId ex_log) ex_listener = 0
   \<and> awaiting_receipt_for (log_eventId ex_log) ex_listener = 0
   \<and> callbacks_for (log_eventId ex_log)
        (listener_run ex_listener
           [LogDelivered ''0xAA'' [''h1'', ''h2''] ex_log, LogDelivered ''0xBB'' [''h3''] ex_log2,
            ReceiptSettles 0 (Inr (Some ex_receipt)), CallbackSettles 0 (Inr ()),
            LogDelivered ''0xAA'' [''h1'', ''h2''] ex_log,
            ReceiptSettles 0 (Inr (Some ex_receipt)), ReceiptSettles 1 (Inr (Some ex_receipt))])
       \<le> 1"
proof -
  have i2: "(0::nat) < length (handlers ex_overlap_called)" by (simp add: ex_called_fields)
  have p2: "h_phase (handlers ex_overlap_called ! 0) = AwaitCallback"
    by (simp add: ex_called_fields)
  have id: "log_eventId ex_log = h_eventId (handlers ex_overlap_called ! 0)"
    by (simp add: ex_called_fields)
  have rec: "log_eventId ex_log \<in> processedEvents (onInvoiceBatch_callback 0 (Inr ()) ex_overlap_called)"
    using i2 p2 by (simp add: onInvoiceBatch_callback_def ex_called_fields)
  have nd: "\<not> is_delivery_of (log_eventId ex_log) (LogDelivered ''0xBB'' [''h3''] ex_log2)"
    using ex_log2_id by simp
  have run1: "listener_run ex_listener
             [LogDelivered ''0xAA'' [''h1'', ''h2''] ex_log, LogDelivered ''0xBB'' [''h3''] ex_log2,
              ReceiptSettles 0 (Inr (Some ex_receipt)), CallbackSettles 0 (Inr ())]
      = onInvoiceBatch_callback 0 (Inr ()) ex_overlap_called"
    by (simp add: listener_run_def ex_overlap_called_def ex_overlap_def)
  have z: "callbacks_for (log_eventId ex_log) ex_listener = 0"
    "awaiting_receipt_for (log_eventId ex_log) ex_listener = 0"
    by (simp_all add: callbacks_for_def awaiting_receipt_for_def ex_listener_fields)
  note a = listener_discards_recorded [where lg = ex_log
      and l = "onInvoiceBatch_callback 0 (Inr ()) ex_overlap_called"
      and sender = "''0xAA''" and invoices = "[''h1'', ''h2'']"]
  note b = listener_discards_recorded [where lg = ex_log and l = ex_overlap_called and i = 0
      and u = "()" and evs = "[ReceiptSettles 0 (Inr (Some ex_receipt))]"
      and sender = "''0xAA''" and invoices = "[''h1'', ''h2'']"]
  note c = listener_discards_recorded [where lg = ex_log and lg' = ex_log and l = ex_listener
      and sender = "''0xAA''" and invoices = "[''h1'', ''h2'']"
      and sender' = "''0xAA''" and invoices' = "[''h1'', ''h2'']"
      and ?evs1.0 = "[LogDelivered ''0xBB'' [''h3''] ex_log2,
              ReceiptSettles 0 (Inr (Some ex_receipt)), CallbackSettles 0 (Inr ())]"
      and ?evs2.0 = "[ReceiptSettles 0 (Inr (Some ex_receipt)),
              ReceiptSettles 1 (Inr (Some ex_receipt))]"]
  have r1: "log_eventId ex_log
        \<in> processedEvents (listener_run ex_listener
             [LogDelivered ''0xAA'' [''h1'', ''h2''] ex_log, LogDelivered ''0xBB'' [''h3''] ex_log2,
              ReceiptSettles 0 (Inr (Some ex_receipt)), CallbackSettles 0 (Inr ())])"
    using rec by (simp only: run1)
  from c nd r1 z have cnt: "callbacks_for (log_eventId ex_log)
        (listener_run ex_listener
           [LogDelivered ''0xAA'' [''h1'', ''h2''] ex_log, LogDelivered ''0xBB'' [''h3''] ex_log2,
            ReceiptSettles 0 (Inr (Some ex_receipt)), CallbackSettles 0 (Inr ()),
            LogDelivered ''0xAA'' [''h1'', ''h2''] ex_log,
            ReceiptSettles 0 (Inr (Some ex_receipt)), ReceiptSettles 1 (Inr (Some ex_receipt))])
       \<le> 1"
    by simp
  from a rec have d1: "onInvoiceBatch ''0xAA'' [''h1'', ''h2''] ex_log
        (onInvoiceBatch_callback 0 (Inr ()) ex_overlap_called)
       = onInvoiceBatch_callback 0 (Inr ()) ex_overlap_called"
    by blast
  from b i2 p2 id have d2: "onInvoiceBatch ''0xAA'' [''h1'', ''h2''] ex_log
        (listener_run (onInvoiceBatch_callback 0 (Inr ()) ex_overlap_called)
           [ReceiptSettles 0 (Inr (Some ex_receipt))])
       = listener_run (onInvoiceBatch_callback 0 (Inr ()) ex_overlap_called)
           [ReceiptSettles 0 (Inr (Some ex_receipt))]"
    by blast
  from rec d1 i2 p2 id d2 nd r1 z cnt show ?thesis by blast
qed

theorem start_stop_idempotent_witness:
  "isListening ex_listener
   \<and> start (Inl (Error ''node unreachable'')) ex_listener = Inr ex_listener
   \<and> start (Inr 100) (stop ex_listener) = Inr ex_listener
   \<and> start (Inr 101) ex_listener = Inr ex_listener
   \<and> \<not> isListening (stop ex_listener)
   \<and> subscriptions (stop ex_listener) = 0
   \<and> stop (stop ex_listener) = stop ex_listener"
  using start_stop_idempotent [of ex_listener "Inl (Error ''node unreachable'')" ex_listener "Inr 101" 100]
    start_stop_idempotent [of "stop ex_listener" "Inr 100" ex_listener "Inr 101" 100]
  by (simp add: ex_listener_def stop_def)

text \<open>An environment that activates Base Sepolia and Optimism Sepolia, the latter without
  an RPC, and nodes that do not answer.\<close>

lemma ex_split: "split_on CHR '','' ''base-sepolia,optimism-sepolia'' = [''base-sepolia'', ''optimism-sepolia'']"
  by simp

lemma ex_enabled:
  "getEnabledChains ex_env = [ex_base_no_contract]"
  "getEnabledChains ex_env_no_contract = [ex_base_no_contract]"
  by (simp_all add: getEnabledChains_def ex_env_def ex_env_no_contract_def ex_split CHAINS_def
      truthy_def ex_base_def ex_base_no_contract_def)

lemma ex_Relayer_new:
  "Relayer_new ex_lib ex_env = Inr ex_relayer_env"
  "Relayer_new ex_lib ex_env_no_contract = Inr (ex_relayer_env\<lparr>enabledChains := [ex_base_no_contract]\<rparr>)"
  by (simp_all add: Relayer_new_def ex_enabled ex_lib_def truthy_def template_def
      ex_base_no_contract_def ex_base_def ex_relayer_env_def)
     (simp_all add: ex_env_def ex_env_no_contract_def)

lemma ex_env_lookups:
  "ex_env ''BASE_SEPOLIA_RPC'' = Some ''http://base''"
  "ex_env ''BASE_SEPOLIA_INVOICEBATCHER_ADDRESS'' = Some ''0xb1''"
  "ex_env ''OPTIMISM_SEPOLIA_RPC'' = None"
  "ex_env ''OPTIMISM_SEPOLIA_INVOICEBATCHER_ADDRESS'' = Some ''0xa1''"
  "ex_env_no_contract ''BASE_SEPOLIA_INVOICEBATCHER_ADDRESS'' = None"
  by (simp_all add: ex_env_def ex_env_no_contract_def)

lemma ex_activated:
  "activatedChains ex_env = [''base-sepolia'', ''optimism-sepolia'']"
  "activatedChains ex_env_no_contract = [''base-sepolia'', ''optimism-sepolia'']"
  by (simp_all add: activatedChains_def truthy_def ex_split)
     (simp_all add: ex_env_def ex_env_no_contract_def)

lemma ex_init:
  "init ex_env ex_relayer_env
     = Inr (ex_relayer_env\<lparr>listeners :=
              [(84532, ex_listener\<lparr>isListening := False, subscriptions := 0\<rparr>)]\<rparr>)"
proof -
  have p: "envPrefix ex_base = Some ''BASE_SEPOLIA''" "chainId ex_base = 84532"
    by (simp_all add: ex_base_def)
  have c: "ChainListener_new ex_env ex_base
      = Inr (ex_listener\<lparr>isListening := False, subscriptions := 0\<rparr>)"
    by (simp add: ChainListener_new_def p template_def ex_env_lookups Let_def ex_listener_def)
  show ?thesis
    by (simp add: init_def ex_relayer_env_def c p template_def ex_env_lookups truthy_def)
qed

theorem init_listeners_counterexample:
  "activatedChains ex_env = [''base-sepolia'', ''optimism-sepolia'']
   \<and> ex_env ''OPTIMISM_SEPOLIA_RPC'' = None
   \<and> ex_env ''OPTIMISM_SEPOLIA_INVOICEBATCHER_ADDRESS'' = Some ''0xa1''
   \<and> ex_env ''BASE_SEPOLIA_RPC'' = Some ''http://base''
   \<and> ex_nodes ''http://base'' = Inl (Error ''connect ECONNREFUSED'')
   \<and> Relayer_new ex_lib ex_env = Inr ex_relayer_env
   \<and> init ex_env ex_relayer_env
       = Inr (ex_relayer_env\<lparr>listeners :=
                [(84532, ex_listener\<lparr>isListening := False, subscriptions := 0\<rparr>)]\<rparr>)
   \<and> console (ex_relayer_env\<lparr>listeners :=
                [(84532, ex_listener\<lparr>isListening := False, subscriptions := 0\<rparr>)]\<rparr>) = []
   \<and> main ex_lib ex_env ex_nodes = Some 1"
proof -
  have s: "start (ex_nodes url) (ex_listener\<lparr>isListening := False, subscriptions := 0\<rparr>)
      = Inl (Error ''connect ECONNREFUSED'')" for url
    by (simp add: start_def ex_nodes_def ex_listener_def)
  have m: "main ex_lib ex_env ex_nodes = Some 1"
    by (simp add: main_def ex_activated ex_Relayer_new ex_init Relayer_start_def s)
  from m ex_activated(1) ex_env_lookups ex_Relayer_new(1) show ?thesis
    by (simp add: ex_init ex_nodes_def) (simp add: ex_relayer_env_def)
qed

theorem init_listeners_witness:
  "Relayer_new ex_lib ex_env = Inr ex_relayer_env
   \<and> has_contract ex_env ex_base \<and> has_rpc ex_env ex_base
   \<and> \<not> (\<exists>e. init ex_env ex_relayer_env = Inl e)
   \<and> fst ` set (listeners (ex_relayer_env\<lparr>listeners :=
              [(84532, ex_listener\<lparr>isListening := False, subscriptions := 0\<rparr>)]\<rparr>)) = {84532}
   \<and> skip_warnings ex_env [ex_base] = []
   \<and> Relayer_new ex_lib ex_env_no_contract
       = Inr (ex_relayer_env\<lparr>enabledChains := [ex_base_no_contract]\<rparr>)
   \<and> \<not> has_contract ex_env_no_contract ex_base_no_contract
   \<and> init ex_env_no_contract (ex_relayer_env\<lparr>enabledChains := [ex_base_no_contract]\<rparr>)
       = Inl (Error ''No chains configured with valid invoice batcher addresses'')
   \<and> main ex_lib ex_env_no_contract ex_nodes = Some 1"
proof -
  have p: "envPrefix ex_base = Some ''BASE_SEPOLIA''" "envPrefix ex_base_no_contract = Some ''BASE_SEPOLIA''"
    by (simp_all add: ex_base_def ex_base_no_contract_def)
  have h: "has_contract ex_env ex_base" "has_rpc ex_env ex_base"
    "\<not> has_contract ex_env_no_contract ex_base_no_contract"
    by (simp_all add: has_contract_def has_rpc_def contractEnvKey_def p template_def
        ex_env_lookups truthy_def)
  have en: "enabledChains ex_relayer_env = [ex_base]"
    "enabledChains (ex_relayer_env\<lparr>enabledChains := [ex_base_no_contract]\<rparr>) = [ex_base_no_contract]"
    by (simp_all add: ex_relayer_env_def)
  note a = init_listeners [OF ex_Relayer_new(1), where getBlockNumber = ex_nodes
      and r' = "ex_relayer_env\<lparr>listeners :=
              [(84532, ex_listener\<lparr>isListening := False, subscriptions := 0\<rparr>)]\<rparr>"]
  note b = init_listeners [OF ex_Relayer_new(2), where getBlockNumber = ex_nodes
      and e = "Error ''No chains configured with valid invoice batcher addresses''"]
  from b h(3) have f: "\<exists>e. init ex_env_no_contract (ex_relayer_env\<lparr>enabledChains := [ex_base_no_contract]\<rparr>) = Inl e"
    by (simp add: en)
  then obtain e where e: "init ex_env_no_contract (ex_relayer_env\<lparr>enabledChains := [ex_base_no_contract]\<rparr>) = Inl e"
    by blast
  from init_listeners [OF ex_Relayer_new(2), where getBlockNumber = ex_nodes and e = e] e
  have g: "init ex_env_no_contract (ex_relayer_env\<lparr>enabledChains := [ex_base_no_contract]\<rparr>)
       = Inl (Error ''No chains configured with valid invoice batcher addresses'')"
    "main ex_lib ex_env_no_contract ex_nodes = Some 1"
    by simp_all
  from a h ex_init have c: "\<not> (\<exists>e. init ex_env ex_relayer_env = Inl e)"
    "fst ` set (listeners (ex_relayer_env\<lparr>listeners :=
              [(84532, ex_listener\<lparr>isListening := False, subscriptions := 0\<rparr>)]\<rparr>)) = {84532}"
    "skip_warnings ex_env [ex_base] = []"
    by (simp_all add: en skip_warnings_def)
  from ex_Relayer_new h c g show ?thesis by simp
qed

end
